theory Spec2Isabelle
  imports
    Complex_Main
    "HOL-Library.Multiset"
    "HOL-Library.Char_ord"
    "HOL-Library.List_Lexorder"
begin

section \<open>Conventions of the embedding\<close>

text \<open>
  The development embeds the cats-vs-dogs pipeline (\<^verbatim>\<open>src/cats_dogs/data.py\<close>,
  \<^verbatim>\<open>model.py\<close>, \<^verbatim>\<open>train.py\<close>, \<^verbatim>\<open>evaluate.py\<close>, \<^verbatim>\<open>predict.py\<close>).

  \<^item> A Python \<^verbatim>\<open>str\<close> is a \<open>string\<close> of UTF-8 bytes; the order of \<open>Char_ord\<close> and
    \<open>List_Lexorder\<close> is the byte-wise lexicographic order, which coincides with Python's
    code-point order on strings.
  \<^item> A \<^verbatim>\<open>pathlib.Path\<close> is identified with its normalised POSIX string: two paths are
    equal in Python exactly when these strings are equal.
  \<^item> A Python \<^verbatim>\<open>float\<close> (and a numpy \<^verbatim>\<open>float32\<close>) is modelled by the real number it
    denotes; arithmetic is exact, so IEEE rounding, infinities and NaN are outside the model.
  \<^item> A \<^verbatim>\<open>dict\<close> is an association list read through \<open>map_of\<close>.
  \<^item> Every exception is a value of type \<open>error\<close>; a function that can raise returns
    \<open>error + 'a\<close> with \<open>Inl\<close> for the exception.
  \<^item> Calls into PIL, the classifier and the random number generator are parameters of the
    functions that use them.
\<close>

datatype error =
    RatiosError          \<comment> \<open>\<^verbatim>\<open>ValueError("Split ratios must sum to 1.0, ...")\<close>\<close>
  | FileNotFoundError    \<comment> \<open>\<^verbatim>\<open>FileNotFoundError\<close> of the dataset discovery\<close>
  | NotRelativeError     \<comment> \<open>\<^verbatim>\<open>ValueError\<close> of \<^verbatim>\<open>Path.relative_to\<close>\<close>
  | KeyError string      \<comment> \<open>a missing dictionary key\<close>
  | IndexError           \<comment> \<open>an index out of range\<close>
  | BadZipFile           \<comment> \<open>\<^verbatim>\<open>zipfile.BadZipFile\<close>\<close>
  | FileExistsError      \<comment> \<open>\<^verbatim>\<open>mkdir\<close> on a path that is a file\<close>
  | IsADirectoryError    \<comment> \<open>\<^verbatim>\<open>write_text\<close> on a directory\<close>
  | ShapeError           \<comment> \<open>\<^verbatim>\<open>ValueError("Expected image array shape (H, W, 3), ...")\<close>\<close>
  | BinsError            \<comment> \<open>numpy's \<^verbatim>\<open>ValueError\<close> for a bin count that is not positive\<close>
  | NoValidSamples       \<comment> \<open>\<^verbatim>\<open>ValueError("No valid samples ...")\<close>\<close>
  | EmptyPayload         \<comment> \<open>\<^verbatim>\<open>ValueError("Empty image payload.")\<close>\<close>
  | DecodeError          \<comment> \<open>PIL's \<^verbatim>\<open>UnidentifiedImageError\<close>\<close>
  | EmptyArgmax          \<comment> \<open>numpy's \<^verbatim>\<open>ValueError\<close> for \<^verbatim>\<open>argmax\<close> of an empty array\<close>
  | NotInList            \<comment> \<open>\<^verbatim>\<open>ValueError\<close> of \<^verbatim>\<open>list.index\<close>\<close>
  | LibraryError string  \<comment> \<open>any other exception of an external library\<close>

section \<open>Strings\<close>

definition lower_char :: "char \<Rightarrow> char" where
  "lower_char c =
     (case map_of (zip ''ABCDEFGHIJKLMNOPQRSTUVWXYZ'' ''abcdefghijklmnopqrstuvwxyz'') c of
        None \<Rightarrow> c
      | Some d \<Rightarrow> d)"

definition str_lower :: "string \<Rightarrow> string" where
  \<comment> \<open>\<^verbatim>\<open>str.lower()\<close> on the ASCII letters; no other code point lowers to a letter of
      the words and suffixes compared below.\<close>
  "str_lower s = map lower_char s"

definition digit_char :: "nat \<Rightarrow> char" where
  "digit_char d = ''0123456789'' ! (d mod 10)"

fun str_nat :: "nat \<Rightarrow> string" where
  "str_nat n = (if n < 10 then [digit_char n] else str_nat (n div 10) @ [digit_char (n mod 10)])"

declare str_nat.simps [simp del]

definition str_int :: "int \<Rightarrow> string" where
  \<comment> \<open>\<^verbatim>\<open>str(i)\<close>, also the rendering of an integer inside an f-string\<close>
  "str_int i = (if i < 0 then CHR ''-'' # str_nat (nat (- i)) else str_nat (nat i))"

fun split_on :: "char \<Rightarrow> string \<Rightarrow> string list" where
  \<comment> \<open>\<^verbatim>\<open>s.split(sep)\<close> for a one-character separator\<close>
  "split_on sep [] = [[]]"
| "split_on sep (c # cs) =
     (if c = sep then [] # split_on sep cs
      else (case split_on sep cs of
              [] \<Rightarrow> [[c]]
            | w # ws \<Rightarrow> (c # w) # ws))"

fun join_on :: "string \<Rightarrow> string list \<Rightarrow> string" where
  \<comment> \<open>\<^verbatim>\<open>sep.join(lines)\<close>\<close>
  "join_on sep [] = []"
| "join_on sep [l] = l"
| "join_on sep (l # ls) = l @ sep @ join_on sep ls"

section \<open>Dictionaries, slices and numbers\<close>

definition dict_get :: "(string \<times> 'v) list \<Rightarrow> string \<Rightarrow> error + 'v" where
  \<comment> \<open>\<^verbatim>\<open>d[k]\<close>\<close>
  "dict_get d k = (case map_of d k of None \<Rightarrow> Inl (KeyError k) | Some v \<Rightarrow> Inr v)"

definition dict_keys :: "(string \<times> 'v) list \<Rightarrow> string list" where
  "dict_keys d = remdups (map fst d)"

definition py_int :: "real \<Rightarrow> int" where
  \<comment> \<open>\<^verbatim>\<open>int(x)\<close> on a float: truncation towards zero\<close>
  "py_int x = (if 0 \<le> x then \<lfloor>x\<rfloor> else \<lceil>x\<rceil>)"

definition slice_index :: "nat \<Rightarrow> int \<Rightarrow> nat" where
  \<comment> \<open>a slice bound: a negative bound counts from the end, and every bound is clamped\<close>
  "slice_index n i = (if i < 0 then nat (max 0 (i + int n)) else min (nat i) n)"

definition py_slice :: "'a list \<Rightarrow> int option \<Rightarrow> int option \<Rightarrow> 'a list" where
  \<comment> \<open>\<^verbatim>\<open>xs[lo:hi]\<close>, \<open>None\<close> for an omitted bound\<close>
  "py_slice xs lo hi =
     (let n = length xs;
          a = (case lo of None \<Rightarrow> 0 | Some i \<Rightarrow> slice_index n i);
          b = (case hi of None \<Rightarrow> n | Some i \<Rightarrow> slice_index n i)
      in take (b - a) (drop a xs))"

section \<open>Label inference (data.py)\<close>

fun scan_parts :: "string list \<Rightarrow> string option" where
  \<comment> \<open>the body of the loop of \<^verbatim>\<open>_infer_label_from_parts\<close>, over the reversed parts\<close>
  "scan_parts [] = None"
| "scan_parts (part # rest) =
     (let l = str_lower part in
      if l \<in> {''cat'', ''cats''} then Some ''cat''
      else if l \<in> {''dog'', ''dogs''} then Some ''dog''
      else scan_parts rest)"

definition infer_label_from_parts :: "string list \<Rightarrow> string option" where
  "infer_label_from_parts parts = scan_parts (rev parts)"

definition matches_class :: "string \<Rightarrow> bool" where
  \<comment> \<open>the segment is one of cat, cats, dog, dogs, whatever its case\<close>
  "matches_class part \<longleftrightarrow> str_lower part \<in> {''cat'', ''cats'', ''dog'', ''dogs''}"

definition class_of_segment :: "string \<Rightarrow> string" where
  "class_of_segment part = (if str_lower part \<in> {''cat'', ''cats''} then ''cat'' else ''dog'')"

section \<open>Paths (pathlib on POSIX)\<close>

type_synonym path = string

definition as_posix :: "path \<Rightarrow> string" where
  "as_posix p = p"

definition is_absolute :: "path \<Rightarrow> bool" where
  "is_absolute p \<longleftrightarrow> (case p of [] \<Rightarrow> False | c # _ \<Rightarrow> c = CHR ''/'')"

definition path_parts :: "path \<Rightarrow> string list" where
  \<comment> \<open>\<^verbatim>\<open>Path.parts\<close>: the root, if any, then the non-empty components\<close>
  "path_parts p =
     (if is_absolute p then [''/''] else []) @ filter (\<lambda>s. s \<noteq> []) (split_on CHR ''/'' p)"

definition path_name :: "path \<Rightarrow> string" where
  \<comment> \<open>\<^verbatim>\<open>Path.name\<close>: the last component, empty for the root\<close>
  "path_name p = (case rev (filter (\<lambda>s. s \<noteq> []) (split_on CHR ''/'' p)) of [] \<Rightarrow> [] | n # _ \<Rightarrow> n)"

definition path_suffix :: "string \<Rightarrow> string" where
  \<comment> \<open>\<^verbatim>\<open>Path(name).suffix\<close>: from the last dot of the name, unless that dot is its first
      or its last character\<close>
  "path_suffix p =
     (let name = path_name p;
          after = takeWhile (\<lambda>c. c \<noteq> CHR ''.'') (rev name);
          i = length name - length after - 1
      in if CHR ''.'' \<in> set name \<and> 0 < i \<and> i < length name - 1 then drop i name else [])"

definition joinpath :: "path \<Rightarrow> string \<Rightarrow> path" where
  \<comment> \<open>\<^verbatim>\<open>d / name\<close>: an absolute \<^verbatim>\<open>name\<close> replaces \<^verbatim>\<open>d\<close>\<close>
  "joinpath d name =
     (if is_absolute name then name else if d = ''/'' then d @ name else d @ ''/'' @ name)"

definition is_below :: "path \<Rightarrow> path \<Rightarrow> bool" where
  \<comment> \<open>\<open>p\<close> lies strictly below the directory \<open>d\<close>\<close>
  "is_below d p \<longleftrightarrow>
     (let pre = (if d = ''/'' then d else d @ ''/'')
      in length pre < length p \<and> take (length pre) p = pre)"

definition relative_to :: "path \<Rightarrow> path \<Rightarrow> error + path" where
  \<comment> \<open>\<^verbatim>\<open>p.relative_to(base)\<close>; the path \<^verbatim>\<open>.\<close> when both are equal\<close>
  "relative_to p base =
     (if p = base then Inr ''.''
      else if is_below base p then Inr (drop (length (if base = ''/'' then base else base @ ''/'')) p)
      else Inl NotRelativeError)"

definition path_parent :: "path \<Rightarrow> path" where
  \<comment> \<open>\<^verbatim>\<open>Path.parent\<close>\<close>
  "path_parent p =
     (let d = rev (drop 1 (dropWhile (\<lambda>c. c \<noteq> CHR ''/'') (rev p)))
      in if d = [] then (if is_absolute p then ''/'' else ''.'') else d)"

definition resolve_path :: "path \<Rightarrow> path \<Rightarrow> path" where
  \<comment> \<open>\<^verbatim>\<open>_resolve_path\<close>; \<^verbatim>\<open>resolve()\<close> is the identity on normalised paths without
      symbolic links\<close>
  "resolve_path p repo_root = (if is_absolute p then p else joinpath repo_root p)"

section \<open>The deterministic shuffle (random.Random.shuffle)\<close>

text \<open>
  \<^verbatim>\<open>random.Random(s).shuffle(x)\<close> is the Fisher-Yates loop
  \<^verbatim>\<open>for i in reversed(range(1, len(x))): j = randbelow(i + 1); x[i], x[j] = x[j], x[i]\<close>.
  The generator is a parameter: \<open>seed_rng\<close> builds its state from the seed string and
  \<open>randbelow g n\<close> returns a draw and the next state.
\<close>

fun shuffle_steps :: "('g \<Rightarrow> nat \<Rightarrow> nat \<times> 'g) \<Rightarrow> nat \<Rightarrow> 'g \<Rightarrow> 'a list \<Rightarrow> error + 'a list" where
  "shuffle_steps randbelow 0 g x = Inr x"
| "shuffle_steps randbelow (Suc k) g x =
     (case randbelow g (Suc k + 1) of
        (j, g') \<Rightarrow>
          if j < length x
          then shuffle_steps randbelow k g' (x[Suc k := x ! j, j := x ! Suc k])
          else Inl IndexError)"

definition shuffle :: "('g \<Rightarrow> nat \<Rightarrow> nat \<times> 'g) \<Rightarrow> 'g \<Rightarrow> 'a list \<Rightarrow> error + 'a list" where
  "shuffle randbelow g x = shuffle_steps randbelow (length x - 1) g x"

definition randbelow_ok :: "('g \<Rightarrow> nat \<Rightarrow> nat \<times> 'g) \<Rightarrow> bool" where
  \<comment> \<open>the contract of \<^verbatim>\<open>randbelow\<close>: a draw below a positive bound is below it\<close>
  "randbelow_ok randbelow \<longleftrightarrow> (\<forall>g n. 0 < n \<longrightarrow> fst (randbelow g n) < n)"

section \<open>The stratified split (data.py)\<close>

type_synonym item = "path \<times> string"

record splits =
  train :: "item list"
  val :: "item list"
  test :: "item list"

definition class_slices ::
  "(string \<Rightarrow> 'g) \<Rightarrow> ('g \<Rightarrow> nat \<Rightarrow> nat \<times> 'g) \<Rightarrow> (string \<times> path list) list \<Rightarrow> int \<Rightarrow>
   (string \<times> real) list \<Rightarrow> string \<Rightarrow> error + (item list \<times> item list \<times> item list)" where
  \<comment> \<open>one iteration of the loop over the labels: the three slices of the shuffled class\<close>
  "class_slices seed_rng randbelow paths_by_label seed ratios lbl =
     (case dict_get paths_by_label lbl of
        Inl e \<Rightarrow> Inl e
      | Inr unsorted \<Rightarrow>
     (case shuffle randbelow (seed_rng (str_int seed @ '':'' @ lbl))
             (sort_key as_posix unsorted) of
        Inl e \<Rightarrow> Inl e
      | Inr paths \<Rightarrow>
     (case dict_get ratios ''train'' of
        Inl e \<Rightarrow> Inl e
      | Inr train_ratio \<Rightarrow>
     (case dict_get ratios ''val'' of
        Inl e \<Rightarrow> Inl e
      | Inr val_ratio \<Rightarrow>
          (let total = length paths;
               train_count = py_int (real total * train_ratio);
               val_count = py_int (real total * val_ratio)
           in Inr (map (\<lambda>p. (p, lbl)) (py_slice paths None (Some train_count)),
                   map (\<lambda>p. (p, lbl))
                     (py_slice paths (Some train_count) (Some (train_count + val_count))),
                   map (\<lambda>p. (p, lbl))
                     (py_slice paths (Some (train_count + val_count)) None)))))))"

fun split_labels ::
  "(string \<Rightarrow> 'g) \<Rightarrow> ('g \<Rightarrow> nat \<Rightarrow> nat \<times> 'g) \<Rightarrow> (string \<times> path list) list \<Rightarrow> int \<Rightarrow>
   (string \<times> real) list \<Rightarrow> string list \<Rightarrow> splits \<Rightarrow> error + splits" where
  "split_labels seed_rng randbelow paths_by_label seed ratios [] s = Inr s"
| "split_labels seed_rng randbelow paths_by_label seed ratios (lbl # rest) s =
     (case class_slices seed_rng randbelow paths_by_label seed ratios lbl of
        Inl e \<Rightarrow> Inl e
      | Inr (tr, va, te) \<Rightarrow>
          split_labels seed_rng randbelow paths_by_label seed ratios rest
            \<lparr>train = train s @ tr, val = val s @ va, test = test s @ te\<rparr>)"

definition stratified_split ::
  "(string \<Rightarrow> 'g) \<Rightarrow> ('g \<Rightarrow> nat \<Rightarrow> nat \<times> 'g) \<Rightarrow> (string \<times> path list) list \<Rightarrow> int \<Rightarrow>
   (string \<times> real) list \<Rightarrow> error + splits" where
  "stratified_split seed_rng randbelow paths_by_label seed ratios =
     (case split_labels seed_rng randbelow paths_by_label seed ratios
             (sort (dict_keys paths_by_label)) \<lparr>train = [], val = [], test = []\<rparr> of
        Inl e \<Rightarrow> Inl e
      | Inr s \<Rightarrow>
          Inr \<lparr>train = sort_key (\<lambda>item. as_posix (fst item)) (train s),
               val = sort_key (\<lambda>item. as_posix (fst item)) (val s),
               test = sort_key (\<lambda>item. as_posix (fst item)) (test s)\<rparr>)"

definition count_label :: "string \<Rightarrow> item list \<Rightarrow> nat" where
  \<comment> \<open>the number of items of a split that carry the label\<close>
  "count_label l items = length (filter (\<lambda>it. snd it = l) items)"

definition lookup_paths :: "(string \<times> path list) list \<Rightarrow> string \<Rightarrow> path list" where
  \<comment> \<open>the files of a class, none for a label that is not a key\<close>
  "lookup_paths paths_by_label l = (case map_of paths_by_label l of None \<Rightarrow> [] | Some ps \<Rightarrow> ps)"

definition all_items :: "(string \<times> path list) list \<Rightarrow> item list" where
  \<comment> \<open>every (path, label) pair of the input dictionary\<close>
  "all_items paths_by_label =
     concat (map (\<lambda>l. map (\<lambda>p. (p, l)) (lookup_paths paths_by_label l))
                 (sort (dict_keys paths_by_label)))"

section \<open>The file system\<close>

text \<open>
  A file system is the list of its nodes, in the order in which the operating system
  enumerates them; \<^verbatim>\<open>rglob\<close> and \<^verbatim>\<open>iterdir\<close> follow that order. An archive is a file
  whose entry names \<^verbatim>\<open>ZipFile.namelist()\<close> returns.
\<close>

datatype node = Dir | File string | Archive "string list"

type_synonym fs = "(path \<times> node) list"

definition fs_exists :: "fs \<Rightarrow> path \<Rightarrow> bool" where
  "fs_exists fs p \<longleftrightarrow> map_of fs p \<noteq> None"

definition is_dir :: "fs \<Rightarrow> path \<Rightarrow> bool" where
  "is_dir fs p \<longleftrightarrow> map_of fs p = Some Dir"

definition is_file :: "fs \<Rightarrow> path \<Rightarrow> bool" where
  "is_file fs p \<longleftrightarrow> (case map_of fs p of None \<Rightarrow> False | Some Dir \<Rightarrow> False | Some _ \<Rightarrow> True)"

definition iterdir :: "fs \<Rightarrow> path \<Rightarrow> path list" where
  "iterdir fs d = filter (\<lambda>p. path_parent p = d \<and> p \<noteq> d) (map fst fs)"

definition rglob :: "fs \<Rightarrow> path \<Rightarrow> path list" where
  \<comment> \<open>\<^verbatim>\<open>d.rglob("*")\<close>\<close>
  "rglob fs d = filter (is_below d) (map fst fs)"

fun fs_put :: "path \<Rightarrow> node \<Rightarrow> fs \<Rightarrow> fs" where
  \<comment> \<open>replace the node at a path, or add it at the end\<close>
  "fs_put p n [] = [(p, n)]"
| "fs_put p n ((q, m) # rest) = (if q = p then (p, n) # rest else (q, m) # fs_put p n rest)"

definition write_text :: "fs \<Rightarrow> path \<Rightarrow> string \<Rightarrow> error + fs" where
  "write_text fs p content = (if is_dir fs p then Inl IsADirectoryError else Inr (fs_put p (File content) fs))"

definition path_chain :: "path \<Rightarrow> path list" where
  \<comment> \<open>the ancestors of a path below the root, from the top down, and the path itself\<close>
  "path_chain p =
     (let comps = filter (\<lambda>s. s \<noteq> []) (split_on CHR ''/'' p)
      in map (\<lambda>k. (if is_absolute p then ''/'' else []) @ join_on ''/'' (take k comps))
           [1..<Suc (length comps)])"

fun mkdir_chain :: "fs \<Rightarrow> path list \<Rightarrow> error + fs" where
  "mkdir_chain fs [] = Inr fs"
| "mkdir_chain fs (d # ds) =
     (case map_of fs d of
        None \<Rightarrow> mkdir_chain (fs @ [(d, Dir)]) ds
      | Some Dir \<Rightarrow> mkdir_chain fs ds
      | Some _ \<Rightarrow> Inl FileExistsError)"

definition mkdir_parents :: "fs \<Rightarrow> path \<Rightarrow> error + fs" where
  \<comment> \<open>\<^verbatim>\<open>d.mkdir(parents=True, exist_ok=True)\<close>\<close>
  "mkdir_parents fs d = mkdir_chain fs (path_chain d)"

section \<open>Dataset discovery (data.py)\<close>

definition DEFAULT_SEED :: int where
  "DEFAULT_SEED = 1337"

definition DEFAULT_SPLIT_RATIOS :: "(string \<times> real) list" where
  "DEFAULT_SPLIT_RATIOS = [(''train'', 8 / 10), (''val'', 1 / 10), (''test'', 1 / 10)]"

definition SUPPORTED_SUFFIXES :: "string list" where
  "SUPPORTED_SUFFIXES = [''.jpg'', ''.jpeg'', ''.png'']"

definition CLASS_TO_INDEX :: "(string \<times> int) list" where
  "CLASS_TO_INDEX = [(''cat'', 0), (''dog'', 1)]"

definition is_image_name :: "string \<Rightarrow> bool" where
  "is_image_name name \<longleftrightarrow> str_lower (path_suffix name) \<in> set SUPPORTED_SUFFIXES"

definition has_class_dirs :: "fs \<Rightarrow> path \<Rightarrow> bool" where
  "has_class_dirs fs candidate \<longleftrightarrow>
     is_dir fs candidate \<and>
     (let names = map (\<lambda>child. str_lower (path_name child)) (filter (is_dir fs) (iterdir fs candidate))
      in list_ex (\<lambda>n. n \<in> {''cat'', ''cats''}) names \<and> list_ex (\<lambda>n. n \<in> {''dog'', ''dogs''}) names)"

definition find_dataset_root :: "fs \<Rightarrow> path \<Rightarrow> error + path" where
  "find_dataset_root fs raw_dir =
     (if \<not> fs_exists fs raw_dir then Inl FileNotFoundError
      else if has_class_dirs fs raw_dir then Inr raw_dir
      else (case find (has_class_dirs fs) (rglob fs raw_dir) of
              Some candidate \<Rightarrow> Inr candidate
            | None \<Rightarrow> Inl FileNotFoundError))"

definition dict_append :: "(string \<times> 'a list) list \<Rightarrow> string \<Rightarrow> 'a \<Rightarrow> (string \<times> 'a list) list" where
  \<comment> \<open>\<^verbatim>\<open>d[k].append(x)\<close> for a key of the dictionary\<close>
  "dict_append d k x = map (\<lambda>(k', xs). if k' = k then (k', xs @ [x]) else (k', xs)) d"

fun collect_dir_loop :: "fs \<Rightarrow> path list \<Rightarrow> (string \<times> path list) list \<Rightarrow> (string \<times> path list) list" where
  "collect_dir_loop fs [] paths_by_label = paths_by_label"
| "collect_dir_loop fs (p # rest) paths_by_label =
     (if \<not> is_file fs p then collect_dir_loop fs rest paths_by_label
      else if \<not> is_image_name (path_name p) then collect_dir_loop fs rest paths_by_label
      else (case infer_label_from_parts (path_parts p) of
              None \<Rightarrow> collect_dir_loop fs rest paths_by_label
            | Some lbl \<Rightarrow> collect_dir_loop fs rest (dict_append paths_by_label lbl p)))"

definition labelled_image :: "fs \<Rightarrow> string \<Rightarrow> path \<Rightarrow> bool" where
  \<comment> \<open>the three tests a path passes before the loop of \<^verbatim>\<open>_collect_from_directory\<close>
      appends it to the list of the label\<close>
  "labelled_image fs l p \<longleftrightarrow>
     is_file fs p \<and> is_image_name (path_name p) \<and> infer_label_from_parts (path_parts p) = Some l"

definition any_values :: "(string \<times> 'a list) list \<Rightarrow> bool" where
  \<comment> \<open>\<^verbatim>\<open>any(d.values())\<close>: some list of the dictionary is not empty\<close>
  "any_values d \<longleftrightarrow> list_ex (\<lambda>kv. snd kv \<noteq> []) d"

definition collect_from_directory :: "fs \<Rightarrow> path \<Rightarrow> error + ((string \<times> path list) list \<times> path)" where
  "collect_from_directory fs raw_dir =
     (case find_dataset_root fs raw_dir of
        Inl e \<Rightarrow> Inl e
      | Inr dataset_root \<Rightarrow>
          (let paths_by_label =
                 collect_dir_loop fs (rglob fs dataset_root) [(''cat'', []), (''dog'', [])]
           in if \<not> any_values paths_by_label then Inl FileNotFoundError
              else Inr (paths_by_label, dataset_root)))"

fun collect_zip_loop ::
  "path \<Rightarrow> string list \<Rightarrow> (string \<times> path list) list \<times> string list \<Rightarrow>
   (string \<times> path list) list \<times> string list" where
  "collect_zip_loop raw_dir [] acc = acc"
| "collect_zip_loop raw_dir (name # rest) (paths_by_label, root_candidates) =
     (if name \<noteq> [] \<and> last name = CHR ''/'' then
        collect_zip_loop raw_dir rest (paths_by_label, root_candidates)
      else if \<not> is_image_name name then
        collect_zip_loop raw_dir rest (paths_by_label, root_candidates)
      else
        (let parts = split_on CHR ''/'' name;
             root_candidates' = (if parts \<noteq> [] then List.insert (hd parts) root_candidates
                                 else root_candidates)
         in case infer_label_from_parts parts of
              None \<Rightarrow> collect_zip_loop raw_dir rest (paths_by_label, root_candidates')
            | Some lbl \<Rightarrow>
                collect_zip_loop raw_dir rest
                  (dict_append paths_by_label lbl (joinpath raw_dir name), root_candidates')))"

definition collect_from_zip :: "fs \<Rightarrow> path \<Rightarrow> path \<Rightarrow> error + ((string \<times> path list) list \<times> path)" where
  "collect_from_zip fs zip_path raw_dir =
     (case map_of fs zip_path of
        None \<Rightarrow> Inl FileNotFoundError
      | Some (Archive names) \<Rightarrow>
          (case collect_zip_loop raw_dir names ([(''cat'', []), (''dog'', [])], []) of
             (paths_by_label, root_candidates) \<Rightarrow>
               if \<not> any_values paths_by_label then Inl FileNotFoundError
               else Inr (paths_by_label,
                         (case root_candidates of
                            [only] \<Rightarrow> joinpath raw_dir only
                          | _ \<Rightarrow> raw_dir)))
      | Some _ \<Rightarrow> Inl BadZipFile)"

section \<open>Writing the manifests (data.py)\<close>

record metadata =
  md_seed :: int
  md_ratios :: "(string \<times> real) list"
  md_counts :: "(string \<times> nat) list"
  md_counts_by_class :: "(string \<times> (string \<times> nat) list) list"
  md_class_to_index :: "(string \<times> int) list"
  md_label_inference :: string
  md_manifest_format :: string
  md_data_source :: "(string \<times> string) list"
  md_raw_dir :: string
  md_dataset_root :: string
  md_supported_suffixes :: "string list"

definition dict_set :: "(string \<times> 'v) list \<Rightarrow> string \<Rightarrow> 'v \<Rightarrow> (string \<times> 'v) list" where
  \<comment> \<open>\<^verbatim>\<open>d[k] = v\<close> for a key of the dictionary\<close>
  "dict_set d k v = map (\<lambda>(k', v'). if k' = k then (k', v) else (k', v')) d"

fun manifest_loop ::
  "path \<Rightarrow> item list \<Rightarrow> string list \<times> (string \<times> nat) list \<Rightarrow>
   error + (string list \<times> (string \<times> nat) list)" where
  \<comment> \<open>the loop over the items of one split: the lines and the counts per class\<close>
  "manifest_loop repo_root [] acc = Inr acc"
| "manifest_loop repo_root ((p, lbl) # rest) (lines, class_counts) =
     (case relative_to p repo_root of
        Inl e \<Rightarrow> Inl e
      | Inr rel_path \<Rightarrow>
          (case map_of class_counts lbl of
             None \<Rightarrow> Inl (KeyError lbl)
           | Some c \<Rightarrow>
               manifest_loop repo_root rest
                 (lines @ [as_posix rel_path @ [CHR 0x09] @ lbl], dict_set class_counts lbl (c + 1))))"

definition manifest_text :: "string list \<Rightarrow> string" where
  \<comment> \<open>\<^verbatim>\<open>"\n".join(lines) + ("\n" if lines else "")\<close>\<close>
  "manifest_text lines = join_on [CHR 0x0A] lines @ (if lines \<noteq> [] then [CHR 0x0A] else [])"

fun write_splits ::
  "path \<Rightarrow> path \<Rightarrow> (string \<times> item list) list \<Rightarrow> fs \<Rightarrow>
   (string \<times> (string \<times> nat) list) list \<Rightarrow> (string \<times> nat) list \<Rightarrow>
   (error + ((string \<times> (string \<times> nat) list) list \<times> (string \<times> nat) list)) \<times> fs" where
  \<comment> \<open>the loop over \<^verbatim>\<open>splits.items()\<close>; the file system is threaded through\<close>
  "write_splits repo_root splits_dir_abs [] fs counts_by_class counts =
     (Inr (counts_by_class, counts), fs)"
| "write_splits repo_root splits_dir_abs ((split_name, items) # rest) fs counts_by_class counts =
     (case manifest_loop repo_root items ([], [(''cat'', 0), (''dog'', 0)]) of
        Inl e \<Rightarrow> (Inl e, fs)
      | Inr (lines, class_counts) \<Rightarrow>
          (case write_text fs (joinpath splits_dir_abs (split_name @ ''.txt'')) (manifest_text lines) of
             Inl e \<Rightarrow> (Inl e, fs)
           | Inr fs' \<Rightarrow>
               write_splits repo_root splits_dir_abs rest fs'
                 (counts_by_class @ [(split_name, class_counts)])
                 (counts @ [(split_name, length items)])))"

definition collect_source ::
  "path \<Rightarrow> fs \<Rightarrow> path \<Rightarrow> path option \<Rightarrow>
   error + ((string \<times> path list) list \<times> path \<times> (string \<times> string) list)" where
  \<comment> \<open>the \<^verbatim>\<open>try\<close> block of \<^verbatim>\<open>write_split_manifests\<close> and its
      \<^verbatim>\<open>except FileNotFoundError\<close> handler\<close>
  "collect_source repo_root fs raw_dir_abs zip_path =
     (case (case collect_from_directory fs raw_dir_abs of
              Inl e \<Rightarrow> Inl e
            | Inr (paths_by_label, dataset_root) \<Rightarrow>
                (case relative_to dataset_root repo_root of
                   Inl e \<Rightarrow> Inl e
                 | Inr rel \<Rightarrow>
                     Inr (paths_by_label, dataset_root,
                          [(''type'', ''filesystem''), (''path'', as_posix rel)]))) of
        Inr r \<Rightarrow> Inr r
      | Inl FileNotFoundError \<Rightarrow>
          (case zip_path of
             None \<Rightarrow> Inl FileNotFoundError
           | Some zp \<Rightarrow>
               (let zip_path_abs = resolve_path zp repo_root
                in case collect_from_zip fs zip_path_abs raw_dir_abs of
                     Inl e \<Rightarrow> Inl e
                   | Inr (paths_by_label, dataset_root) \<Rightarrow>
                       (case relative_to zip_path_abs repo_root of
                          Inl e \<Rightarrow> Inl e
                        | Inr rel \<Rightarrow>
                            Inr (paths_by_label, dataset_root,
                                 [(''type'', ''zip''), (''path'', as_posix rel)]))))
      | Inl e \<Rightarrow> Inl e)"

definition effective_ratios :: "(string \<times> real) list option \<Rightarrow> (string \<times> real) list" where
  \<comment> \<open>\<^verbatim>\<open>ratios or DEFAULT_SPLIT_RATIOS\<close>: \<^verbatim>\<open>None\<close> and the empty dictionary are falsy\<close>
  "effective_ratios ratios =
     (case ratios of
        None \<Rightarrow> DEFAULT_SPLIT_RATIOS
      | Some r \<Rightarrow> if r = [] then DEFAULT_SPLIT_RATIOS else r)"

definition ratios_rejected :: "(string \<times> real) list \<Rightarrow> bool" where
  \<comment> \<open>\<^verbatim>\<open>abs(sum(ratios.values()) - 1.0) > 1e-6\<close>\<close>
  "ratios_rejected ratios \<longleftrightarrow> \<bar>sum_list (map snd ratios) - 1\<bar> > 1 / 10 ^ 6"

definition write_outputs ::
  "path \<Rightarrow> (string \<Rightarrow> 'g) \<Rightarrow> ('g \<Rightarrow> nat \<Rightarrow> nat \<times> 'g) \<Rightarrow> (metadata \<Rightarrow> string) \<Rightarrow>
   fs \<Rightarrow> path \<Rightarrow> path \<Rightarrow> int \<Rightarrow> (string \<times> real) list \<Rightarrow>
   (string \<times> path list) list \<times> path \<times> (string \<times> string) list \<Rightarrow>
   (error + metadata) \<times> fs" where
  \<comment> \<open>\<^verbatim>\<open>write_split_manifests\<close> from the call of \<^verbatim>\<open>_stratified_split\<close> to its end:
      the result is the returned metadata or the exception, and the file system left behind\<close>
  "write_outputs repo_root seed_rng randbelow json_dumps fs raw_dir_abs splits_dir_abs seed ratios
       collected =
     (case collected of (paths_by_label, dataset_root, source) \<Rightarrow>
          (case stratified_split seed_rng randbelow paths_by_label seed ratios of
              Inl e \<Rightarrow> (Inl e, fs)
            | Inr splits \<Rightarrow>
          (case mkdir_parents fs splits_dir_abs of
              Inl e \<Rightarrow> (Inl e, fs)
            | Inr fs1 \<Rightarrow>
          (case write_splits repo_root splits_dir_abs
                  [(''train'', train splits), (''val'', val splits), (''test'', test splits)]
                  fs1 [] [] of
              (Inl e, fs2) \<Rightarrow> (Inl e, fs2)
            | (Inr (counts_by_class, counts), fs2) \<Rightarrow>
          (case relative_to raw_dir_abs repo_root of
              Inl e \<Rightarrow> (Inl e, fs2)
            | Inr raw_rel \<Rightarrow>
          (case relative_to dataset_root repo_root of
              Inl e \<Rightarrow> (Inl e, fs2)
            | Inr root_rel \<Rightarrow>
              (let metadata =
                     \<lparr>md_seed = seed, md_ratios = ratios, md_counts = counts,
                      md_counts_by_class = counts_by_class,
                      md_class_to_index = CLASS_TO_INDEX,
                      md_label_inference =
                        ''Label inferred from any path segment named cat/cats or dog/dogs (case-insensitive).'',
                      md_manifest_format = ''path'' @ [CHR 0x5C] @ ''tlabel (repo-relative path)'',
                      md_data_source = source,
                      md_raw_dir = as_posix raw_rel,
                      md_dataset_root = as_posix root_rel,
                      md_supported_suffixes = sort SUPPORTED_SUFFIXES\<rparr>
               in case write_text fs2 (joinpath splits_dir_abs ''metadata.json'')
                         (json_dumps metadata) of
                    Inl e \<Rightarrow> (Inl e, fs2)
                  | Inr fs3 \<Rightarrow> (Inr metadata, fs3))))))))"

definition write_split_manifests ::
  "path \<Rightarrow> (string \<Rightarrow> 'g) \<Rightarrow> ('g \<Rightarrow> nat \<Rightarrow> nat \<times> 'g) \<Rightarrow> (metadata \<Rightarrow> string) \<Rightarrow>
   fs \<Rightarrow> path \<Rightarrow> path \<Rightarrow> int \<Rightarrow> (string \<times> real) list option \<Rightarrow> path option \<Rightarrow>
   (error + metadata) \<times> fs" where
  \<comment> \<open>\<open>repo_root\<close> is \<^verbatim>\<open>_resolve_repo_root()\<close> and \<open>json_dumps\<close> is
      \<^verbatim>\<open>json.dumps(_, indent=2, sort_keys=True)\<close>\<close>
  "write_split_manifests repo_root seed_rng randbelow json_dumps fs raw_dir splits_dir seed
       ratios_arg zip_path =
     (let ratios = effective_ratios ratios_arg in
      if ratios_rejected ratios then (Inl RatiosError, fs)
      else
        (let raw_dir_abs = resolve_path raw_dir repo_root;
             splits_dir_abs = resolve_path splits_dir repo_root
         in case collect_source repo_root fs raw_dir_abs zip_path of
              Inl e \<Rightarrow> (Inl e, fs)
            | Inr collected \<Rightarrow>
                write_outputs repo_root seed_rng randbelow json_dumps fs raw_dir_abs
                  splits_dir_abs seed ratios collected))"

section \<open>Feature extraction (model.py)\<close>

record ndarray =
  shape :: "nat list"
  data :: "real list"  \<comment> \<open>the elements in row-major order\<close>

record FeatureConfig =
  bins :: int

record PreprocessConfig =
  image_size :: "nat \<times> nat"
  normalize_flag :: bool  \<comment> \<open>the field \<^verbatim>\<open>normalize\<close>\<close>
  dtype :: string

definition DEFAULT_FEATURE_BINS :: int where
  "DEFAULT_FEATURE_BINS = 8"


fun channel_values :: "nat \<Rightarrow> real list \<Rightarrow> real list" where
  \<comment> \<open>\<^verbatim>\<open>image_array[:, :, channel]\<close> on the row-major data of an (H, W, 3) array\<close>
  "channel_values c (r # g # b # rest) = ([r, g, b] ! c) # channel_values c rest"
| "channel_values c _ = []"

definition bin_index :: "nat \<Rightarrow> real \<Rightarrow> nat" where
  \<comment> \<open>the bin of a value of [0, 1] among B equal bins; the last bin is closed on the right\<close>
  "bin_index B x = (if x = 1 then B - 1 else nat \<lfloor>x * real B\<rfloor>)"

definition np_histogram :: "real list \<Rightarrow> nat \<Rightarrow> nat list" where
  \<comment> \<open>\<^verbatim>\<open>np.histogram(a, bins=B, range=(0.0, 1.0))[0]\<close> for a positive B: values outside the
      range are not counted\<close>
  "np_histogram a B =
     (let kept = filter (\<lambda>x. 0 \<le> x \<and> x \<le> 1) a
      in map (\<lambda>k. length (filter (\<lambda>x. bin_index B x = k) kept)) [0..<B])"

definition normalize_hist :: "nat list \<Rightarrow> real list" where
  \<comment> \<open>\<^verbatim>\<open>hist = hist.astype(float32); total = hist.sum(); if total > 0: hist /= total\<close>\<close>
  "normalize_hist hist =
     (let total = sum_list hist
      in if total > 0 then map (\<lambda>c. real c / real total) hist else map real hist)"

definition extract_color_histogram :: "ndarray \<Rightarrow> int \<Rightarrow> error + real list" where
  "extract_color_histogram image_array B =
     (if length (shape image_array) \<noteq> 3 \<or> last (shape image_array) \<noteq> 3 then Inl ShapeError
      else if B \<le> 0 then Inl BinsError
      else Inr (concat (map (\<lambda>channel.
                  normalize_hist (np_histogram (channel_values channel (data image_array)) (nat B)))
                [0, 1, 2])))"

definition featurize_image :: "ndarray \<Rightarrow> FeatureConfig \<Rightarrow> error + real list" where
  "featurize_image image_array config = extract_color_histogram image_array (bins config)"


section \<open>The imaging library (PIL) and preprocessing (data.py)\<close>

text \<open>
  Images are values of a type \<open>'img\<close> that the model does not look into; the calls into
  PIL and numpy are the fields of a record.
\<close>

record 'img imaging =
  open_path :: "path \<Rightarrow> error + 'img"          \<comment> \<open>\<^verbatim>\<open>Image.open(path)\<close>\<close>
  open_bytes :: "string \<Rightarrow> error + 'img"       \<comment> \<open>\<^verbatim>\<open>Image.open(io.BytesIO(payload))\<close>\<close>
  image_mode :: "'img \<Rightarrow> string"               \<comment> \<open>\<^verbatim>\<open>image.mode\<close>\<close>
  convert_rgb :: "'img \<Rightarrow> error + 'img"        \<comment> \<open>\<^verbatim>\<open>image.convert("RGB")\<close>\<close>
  resize :: "'img \<Rightarrow> nat \<times> nat \<Rightarrow> error + 'img"  \<comment> \<open>\<^verbatim>\<open>image.resize(size, resample=BILINEAR)\<close>\<close>
  asarray :: "'img \<Rightarrow> error + ndarray"          \<comment> \<open>\<^verbatim>\<open>np.asarray(image, dtype=np.float32)\<close>\<close>
  augment_image :: "int \<Rightarrow> 'img \<Rightarrow> error + 'img"
    \<comment> \<open>\<^verbatim>\<open>_augment_image(image.copy(), random.Random(aug_seed))\<close>\<close>
  astype :: "string \<Rightarrow> ndarray \<Rightarrow> error + ndarray"
    \<comment> \<open>the cast to \<^verbatim>\<open>np.dtype(config.dtype)\<close>\<close>

definition preprocess_image :: "'img imaging \<Rightarrow> 'img \<Rightarrow> nat \<times> nat \<Rightarrow> error + ndarray" where
  "preprocess_image lib img target_size =
     (case (if image_mode lib img \<noteq> ''RGB'' then convert_rgb lib img else Inr img) of
        Inl e \<Rightarrow> Inl e
      | Inr rgb \<Rightarrow>
     (case resize lib rgb target_size of
        Inl e \<Rightarrow> Inl e
      | Inr resized \<Rightarrow>
     (case asarray lib resized of
        Inl e \<Rightarrow> Inl e
      | Inr array \<Rightarrow> Inr (array\<lparr>data := map (\<lambda>x. x / 255) (data array)\<rparr>))))"


section \<open>Prediction (predict.py)\<close>

datatype scores = Scores1 "real list" | Scores2 "real list list"

record classifier =
  cls_predict_proba :: "(real list list \<Rightarrow> error + real list list) option"
  cls_decision_function :: "(real list list \<Rightarrow> error + scores) option"
  cls_predict :: "(real list list \<Rightarrow> error + int list) option"
  classes :: "int list option"  \<comment> \<open>the attribute \<^verbatim>\<open>classes_\<close>, if the classifier has it\<close>

record ModelBundle =
  classifier :: classifier
  class_to_index :: "(string \<times> int) list"
  index_to_class :: "(int \<times> string) list"
  feature_config :: FeatureConfig
  preprocess_config :: PreprocessConfig
  schema_version :: int

record PredictionResult =
  label :: string
  probability :: real
  probabilities :: "(string \<times> real) list"

definition preprocess_for_inference ::
  "'img imaging \<Rightarrow> 'img \<Rightarrow> PreprocessConfig \<Rightarrow> error + ndarray" where
  "preprocess_for_inference lib img config =
     (case preprocess_image lib img (image_size config) of
        Inl e \<Rightarrow> Inl e
      | Inr array \<Rightarrow>
          astype lib (dtype config)
            (if \<not> normalize_flag config then array\<lparr>data := map (\<lambda>x. x * 255) (data array)\<rparr>
             else array))"

definition softmax_row :: "real list \<Rightarrow> real list" where
  "softmax_row r =
     (let m = fold max r (hd r);
          exp_scores = map (\<lambda>x. exp (x - m)) r
      in map (\<lambda>x. x / sum_list exp_scores) exp_scores)"

definition scores_to_proba :: "scores \<Rightarrow> real list list" where
  "scores_to_proba sc =
     (let rows = (case sc of Scores1 v \<Rightarrow> map (\<lambda>x. [x]) v | Scores2 m \<Rightarrow> m)
      in if rows \<noteq> [] \<and> length (hd rows) = 1
         then map (\<lambda>r. let probs_pos = 1 / (1 + exp (- hd r)) in [1 - probs_pos, probs_pos]) rows
         else map softmax_row rows)"

fun index_of :: "'a list \<Rightarrow> 'a \<Rightarrow> nat option" where
  \<comment> \<open>\<^verbatim>\<open>list.index\<close>\<close>
  "index_of [] x = None"
| "index_of (y # ys) x = (if y = x then Some 0 else map_option Suc (index_of ys x))"

fun fill_one_hot :: "int list \<Rightarrow> (nat \<times> int) list \<Rightarrow> real list list \<Rightarrow> error + real list list" where
  "fill_one_hot cs [] proba = Inr proba"
| "fill_one_hot cs ((idx, pred) # rest) proba =
     (case index_of cs pred of
        None \<Rightarrow> Inl NotInList
      | Some class_index \<Rightarrow>
          if idx < length proba
          then fill_one_hot cs rest (proba[idx := (proba ! idx)[class_index := 1]])
          else Inl IndexError)"

definition predict_proba :: "classifier \<Rightarrow> real list \<Rightarrow> error + real list list" where
  \<comment> \<open>\<^verbatim>\<open>_predict_proba\<close>: the three capabilities are probed in this order\<close>
  "predict_proba c features =
     (let X = [features] in
      case cls_predict_proba c of
        Some f \<Rightarrow> f X
      | None \<Rightarrow>
     (case cls_decision_function c of
        Some g \<Rightarrow> (case g X of Inl e \<Rightarrow> Inl e | Inr sc \<Rightarrow> Inr (scores_to_proba sc))
      | None \<Rightarrow>
     (case cls_predict c of
        None \<Rightarrow> Inl (LibraryError ''AttributeError'')
      | Some h \<Rightarrow>
     (case h X of
        Inl e \<Rightarrow> Inl e
      | Inr preds \<Rightarrow>
          (let cs = (case classes c of Some known \<Rightarrow> known | None \<Rightarrow> sort (remdups preds))
           in fill_one_hot cs (zip [0..<length preds] preds)
                [replicate (length cs) 0])))))"

definition resolve_class_labels :: "ModelBundle \<Rightarrow> classifier \<Rightarrow> nat \<Rightarrow> string list" where
  "resolve_class_labels bundle c n_classes =
     (let class_indices = (case classes c of None \<Rightarrow> map int [0..<n_classes] | Some cs \<Rightarrow> cs);
          labels = map (\<lambda>cls. case map_of (index_to_class bundle) cls of
                                 None \<Rightarrow> str_int cls
                               | Some l \<Rightarrow> l) class_indices
      in if length labels \<noteq> n_classes then map str_nat [0..<n_classes] else labels)"

fun argmax_scan :: "real list \<Rightarrow> nat \<Rightarrow> nat \<Rightarrow> real \<Rightarrow> nat" where
  \<comment> \<open>the scan of \<^verbatim>\<open>np.argmax\<close>: the best index so far changes on a strictly larger value\<close>
  "argmax_scan [] i best m = best"
| "argmax_scan (x # xs) i best m =
     (if m < x then argmax_scan xs (Suc i) i x else argmax_scan xs (Suc i) best m)"

definition np_argmax :: "real list \<Rightarrow> error + nat" where
  "np_argmax xs = (case xs of [] \<Rightarrow> Inl EmptyArgmax | x # rest \<Rightarrow> Inr (argmax_scan rest 1 0 x))"

fun dict_store :: "'k \<Rightarrow> 'v \<Rightarrow> ('k \<times> 'v) list \<Rightarrow> ('k \<times> 'v) list" where
  \<comment> \<open>\<^verbatim>\<open>d[k] = v\<close>: an existing key keeps its place, a new one goes last\<close>
  "dict_store k v [] = [(k, v)]"
| "dict_store k v ((k', v') # rest) =
     (if k' = k then (k, v) # rest else (k', v') # dict_store k v rest)"

definition predict_image :: "'img imaging \<Rightarrow> ModelBundle \<Rightarrow> 'img \<Rightarrow> error + PredictionResult" where
  "predict_image lib bundle img =
     (case preprocess_for_inference lib img (preprocess_config bundle) of
        Inl e \<Rightarrow> Inl e
      | Inr array \<Rightarrow>
     (case featurize_image array (feature_config bundle) of
        Inl e \<Rightarrow> Inl e
      | Inr features \<Rightarrow>
     (case predict_proba (classifier bundle) features of
        Inl e \<Rightarrow> Inl e
      | Inr proba \<Rightarrow>
     (case proba of
        [] \<Rightarrow> Inl IndexError
      | scores # _ \<Rightarrow>
          (let labels = resolve_class_labels bundle (classifier bundle) (length scores);
               probs = fold (\<lambda>(l, score). dict_store l score) (zip labels scores) []
           in case np_argmax scores of
                Inl e \<Rightarrow> Inl e
              | Inr best_idx \<Rightarrow>
                  Inr \<lparr>label = labels ! best_idx, probability = scores ! best_idx,
                       probabilities = probs\<rparr>)))))"

definition predict_bytes :: "'img imaging \<Rightarrow> ModelBundle \<Rightarrow> string \<Rightarrow> error + PredictionResult" where
  "predict_bytes lib bundle payload =
     (if payload = [] then Inl EmptyPayload
      else (case open_bytes lib payload of
              Inl e \<Rightarrow> Inl e
            | Inr img \<Rightarrow> predict_image lib bundle img))"

definition is_argmax :: "real list \<Rightarrow> nat \<Rightarrow> bool" where
  \<comment> \<open>\<open>i\<close> is the lowest index of a largest entry\<close>
  "is_argmax xs i \<longleftrightarrow>
     i < length xs \<and> (\<forall>j < length xs. xs ! j \<le> xs ! i) \<and> (\<forall>j < i. xs ! j < xs ! i)"

section \<open>Feature matrices (train.py, evaluate.py)\<close>












section \<open>Sample inputs\<close>

text \<open>
  A small random number generator, a repository tree and an imaging library on which the
  model is run. The tree is the scenario of two cats and two dogs, with a text file and an
  image outside the class folders.
\<close>

definition toy_seed :: "string \<Rightarrow> nat" where
  "toy_seed s = length s"

definition toy_randbelow :: "nat \<Rightarrow> nat \<Rightarrow> nat \<times> nat" where
  "toy_randbelow g n = ((g + 1) mod n, g + 3)"

definition toy_json_dumps :: "metadata \<Rightarrow> string" where
  "toy_json_dumps m = ''seed='' @ str_int (md_seed m)"

definition demo_fs :: fs where
  "demo_fs =
     [(''/repo'', Dir), (''/repo/data'', Dir), (''/repo/data/raw'', Dir),
      (''/repo/data/raw/cats'', Dir), (''/repo/data/raw/dogs'', Dir),
      (''/repo/data/raw/misc'', Dir),
      (''/repo/data/raw/dogs/d.jpg'', File ''d''), (''/repo/data/raw/cats/b.jpg'', File ''b''),
      (''/repo/data/raw/cats/a.jpg'', File ''a''), (''/repo/data/raw/dogs/c.jpg'', File ''c''),
      (''/repo/data/raw/cats/notes.txt'', File ''n''), (''/repo/data/raw/misc/e.png'', File ''e'')]"

definition half_quarter_ratios :: "(string \<times> real) list" where
  "half_quarter_ratios = [(''train'', 1 / 2), (''val'', 1 / 4), (''test'', 1 / 4)]"

definition negative_train_ratios :: "(string \<times> real) list" where
  "negative_train_ratios = [(''train'', - 1 / 2), (''val'', 3 / 4), (''test'', 3 / 4)]"

definition pixel_image :: "real \<Rightarrow> ndarray" where
  \<comment> \<open>a 1 x 1 image whose three channels hold the same value\<close>
  "pixel_image v = \<lparr>shape = [1, 1, 3], data = [v, v, v]\<rparr>"

definition toy_imaging :: "ndarray imaging" where
  \<comment> \<open>an image is its array of 8-bit values; a path or payload starting with \<open>x\<close> does not
      decode\<close>
  "toy_imaging =
     \<lparr>open_path = (\<lambda>p. if take 1 p = ''x'' then Inl DecodeError else Inr (pixel_image 51)),
      open_bytes = (\<lambda>b. if take 1 b = ''x'' then Inl DecodeError else Inr (pixel_image 51)),
      image_mode = (\<lambda>i. ''RGB''),
      convert_rgb = Inr,
      resize = (\<lambda>i s. Inr i),
      asarray = Inr,
      augment_image = (\<lambda>s i. Inr i),
      astype = (\<lambda>t a. Inr a)\<rparr>"

definition dummy_classifier :: classifier where
  \<comment> \<open>the classifier of the unit test: probabilities [0.2, 0.8] for the classes [0, 1]\<close>
  "dummy_classifier =
     \<lparr>cls_predict_proba = Some (\<lambda>X. Inr (map (\<lambda>row. [2 / 10, 8 / 10]) X)),
      cls_decision_function = None,
      cls_predict = None,
      classes = Some [0, 1]\<rparr>"

definition dummy_bundle :: ModelBundle where
  "dummy_bundle =
     \<lparr>classifier = dummy_classifier,
      class_to_index = [(''cat'', 0), (''dog'', 1)],
      index_to_class = [(0, ''cat''), (1, ''dog'')],
      feature_config = \<lparr>bins = 8\<rparr>,
      preprocess_config = \<lparr>image_size = (224, 224), normalize_flag = True, dtype = ''float32''\<rparr>,
      schema_version = 1\<rparr>"

section \<open>The stratified split: shuffling and slicing\<close>

lemma shuffle_steps_mset:
  "shuffle_steps rb k g x = Inr y \<Longrightarrow> k < length x \<or> k = 0 \<Longrightarrow> mset y = mset x"
proof (induction k arbitrary: g x)
  case 0
  then show ?case by simp
next
  case (Suc k)
  obtain j g' where rb: "rb g (Suc k + 1) = (j, g')" by (cases "rb g (Suc k + 1)")
  from Suc.prems have len: "Suc k < length x" by simp
  from Suc.prems rb have j: "j < length x"
    by (auto split: if_splits)
  from Suc.prems rb j have "shuffle_steps rb k g' (x[Suc k := x ! j, j := x ! Suc k]) = Inr y"
    by simp
  moreover have "k < length (x[Suc k := x ! j, j := x ! Suc k])" using len by simp
  ultimately have "mset y = mset (x[Suc k := x ! j, j := x ! Suc k])"
    using Suc.IH by blast
  also have "\<dots> = mset x" by (rule mset_swap[OF j len])
  finally show ?case .
qed

lemma shuffle_mset: "shuffle rb g x = Inr y \<Longrightarrow> mset y = mset x"
  unfolding shuffle_def by (rule shuffle_steps_mset) (auto simp: less_Suc_eq_0_disj)

lemma shuffle_steps_returns:
  "randbelow_ok rb \<Longrightarrow> k < length x \<or> k = 0 \<Longrightarrow> \<exists>y. shuffle_steps rb k g x = Inr y"
proof (induction k arbitrary: g x)
  case 0
  then show ?case by simp
next
  case (Suc k)
  obtain j g' where rb: "rb g (Suc k + 1) = (j, g')" by (cases "rb g (Suc k + 1)")
  from Suc.prems have len: "Suc k < length x" by simp
  from Suc.prems(1) have "fst (rb g (Suc k + 1)) < Suc k + 1"
    unfolding randbelow_ok_def by simp
  with rb len have j: "j < length x" by simp
  have "k < length (x[Suc k := x ! j, j := x ! Suc k])" using len by simp
  then obtain y where "shuffle_steps rb k g' (x[Suc k := x ! j, j := x ! Suc k]) = Inr y"
    using Suc.IH[OF Suc.prems(1)] by blast
  with rb j show ?case by simp
qed

lemma shuffle_returns: "randbelow_ok rb \<Longrightarrow> \<exists>y. shuffle rb g x = Inr y"
  unfolding shuffle_def by (rule shuffle_steps_returns) (auto simp: less_Suc_eq_0_disj)

lemma py_slice_prefix: "0 \<le> a \<Longrightarrow> py_slice xs None (Some a) = take (nat a) xs"
  by (cases "nat a \<le> length xs") (simp_all add: py_slice_def slice_index_def min_def)

lemma py_slice_middle:
  "0 \<le> a \<Longrightarrow> 0 \<le> b \<Longrightarrow> py_slice xs (Some a) (Some (a + b)) = take (nat b) (drop (nat a) xs)"
  by (cases "nat a \<le> length xs"; cases "nat a + nat b \<le> length xs")
     (simp_all add: py_slice_def slice_index_def min_def nat_add_distrib Let_def)

lemma py_slice_rest: "0 \<le> c \<Longrightarrow> py_slice xs (Some c) None = drop (nat c) xs"
  by (cases "nat c \<le> length xs") (simp_all add: py_slice_def slice_index_def min_def Let_def)

lemma py_slices_partition:
  assumes "0 \<le> a" "0 \<le> b"
  shows "py_slice xs None (Some a) @ py_slice xs (Some a) (Some (a + b)) @ py_slice xs (Some (a + b)) None = xs"
proof -
  have "0 \<le> a + b" using assms by simp
  then have "py_slice xs (Some (a + b)) None = drop (nat b) (drop (nat a) xs)"
    using assms by (simp add: py_slice_rest nat_add_distrib add.commute)
  then show ?thesis
    using assms by (simp only: py_slice_prefix py_slice_middle append_take_drop_id)
qed


lemma py_int_ge0: "0 \<le> x \<Longrightarrow> 0 \<le> py_int x"
  by (simp add: py_int_def)

lemma class_slices_InrD:
  assumes "class_slices sr rb d seed ratios l = Inr (tr, va, te)"
  obtains ps paths rt rv where
    "map_of d l = Some ps" "mset paths = mset ps"
    "dict_get ratios ''train'' = Inr rt" "dict_get ratios ''val'' = Inr rv"
    "tr = map (\<lambda>p. (p, l)) (py_slice paths None (Some (py_int (real (length ps) * rt))))"
    "va = map (\<lambda>p. (p, l)) (py_slice paths (Some (py_int (real (length ps) * rt)))
            (Some (py_int (real (length ps) * rt) + py_int (real (length ps) * rv))))"
    "te = map (\<lambda>p. (p, l)) (py_slice paths
            (Some (py_int (real (length ps) * rt) + py_int (real (length ps) * rv))) None)"
proof -
  from assms obtain ps where ps: "dict_get d l = Inr ps"
    by (auto simp: class_slices_def split: sum.splits)
  then have m: "map_of d l = Some ps"
    by (auto simp: dict_get_def split: option.splits)
  from assms ps obtain paths where
    sh: "shuffle rb (sr (str_int seed @ '':'' @ l)) (sort_key as_posix ps) = Inr paths"
    by (auto simp: class_slices_def split: sum.splits)
  from shuffle_mset[OF sh] have ms: "mset paths = mset ps" by simp
  then have len: "length paths = length ps" by (rule mset_eq_length)
  from assms ps sh obtain rt where rt: "dict_get ratios ''train'' = Inr rt"
    by (auto simp: class_slices_def split: sum.splits)
  from assms ps sh rt obtain rv where rv: "dict_get ratios ''val'' = Inr rv"
    by (auto simp: class_slices_def split: sum.splits)
  from assms ps sh rt rv len show thesis
    by (intro that[OF m ms rt rv]) (simp_all add: class_slices_def Let_def)
qed

lemma class_slices_mset:
  assumes "class_slices sr rb d seed ratios l = Inr (tr, va, te)"
    and "dict_get ratios ''train'' = Inr rt" "dict_get ratios ''val'' = Inr rv"
    and "0 \<le> rt" "0 \<le> rv"
  shows "mset (tr @ va @ te) = mset (map (\<lambda>p. (p, l)) (lookup_paths d l))"
proof -
  from assms(1) obtain ps paths rt' rv' where f:
    "map_of d l = Some ps" "mset paths = mset ps"
    "dict_get ratios ''train'' = Inr rt'" "dict_get ratios ''val'' = Inr rv'"
    "tr = map (\<lambda>p. (p, l)) (py_slice paths None (Some (py_int (real (length ps) * rt'))))"
    "va = map (\<lambda>p. (p, l)) (py_slice paths (Some (py_int (real (length ps) * rt')))
            (Some (py_int (real (length ps) * rt') + py_int (real (length ps) * rv'))))"
    "te = map (\<lambda>p. (p, l)) (py_slice paths
            (Some (py_int (real (length ps) * rt') + py_int (real (length ps) * rv'))) None)"
    by (rule class_slices_InrD)
  from f(3,4) assms(2,3) have eq: "rt' = rt" "rv' = rv" by simp_all
  have a: "0 \<le> py_int (real (length ps) * rt)" using assms(4) by (intro py_int_ge0) simp
  have b: "0 \<le> py_int (real (length ps) * rv)" using assms(5) by (intro py_int_ge0) simp
  have "tr @ va @ te = map (\<lambda>p. (p, l)) paths"
    unfolding f(5,6,7) eq map_append[symmetric] py_slices_partition[OF a b] ..
  then show ?thesis using f(1,2) by (simp add: lookup_paths_def)
qed

lemma split_labels_mset:
  assumes "dict_get ratios ''train'' = Inr rt" "dict_get ratios ''val'' = Inr rv" "0 \<le> rt" "0 \<le> rv"
  shows "split_labels sr rb d seed ratios ls s = Inr s' \<Longrightarrow>
         mset (train s' @ val s' @ test s') =
         mset (train s @ val s @ test s) + mset (concat (map (\<lambda>l. map (\<lambda>p. (p, l)) (lookup_paths d l)) ls))"
proof (induction ls arbitrary: s)
  case Nil
  then show ?case by simp
next
  case (Cons l ls)
  from Cons.prems obtain tr va te where cs: "class_slices sr rb d seed ratios l = Inr (tr, va, te)"
    by (auto split: sum.splits)
  with Cons.prems have
    "split_labels sr rb d seed ratios ls \<lparr>train = train s @ tr, val = val s @ va, test = test s @ te\<rparr> = Inr s'"
    by simp
  from Cons.IH[OF this] class_slices_mset[OF cs assms]
  show ?case by (simp add: ac_simps)
qed

lemma count_label_Nil [simp]: "count_label l [] = 0"
  by (simp add: count_label_def)

lemma count_label_append [simp]: "count_label l (xs @ ys) = count_label l xs + count_label l ys"
  by (simp add: count_label_def)

lemma count_label_map_same [simp]: "count_label l (map (\<lambda>p. (p, l)) ps) = length ps"
  by (simp add: count_label_def filter_map o_def)

lemma count_label_map_other [simp]: "l' \<noteq> l \<Longrightarrow> count_label l (map (\<lambda>p. (p, l')) ps) = 0"
  by (simp add: count_label_def filter_map o_def)

lemma count_label_sort_key [simp]: "count_label l (sort_key f xs) = count_label l xs"
  by (simp add: count_label_def filter_sort)



lemma class_slices_returns:
  assumes "randbelow_ok rb" "dict_get ratios ''train'' = Inr rt" "dict_get ratios ''val'' = Inr rv"
    and "l \<in> set (dict_keys d)"
  shows "\<exists>r. class_slices sr rb d seed ratios l = Inr r"
proof -
  from assms(4) have "l \<in> fst ` set d" by (simp add: dict_keys_def)
  then obtain ps where "map_of d l = Some ps"
    by (metis domD dom_map_of_conv_image_fst)
  then have g: "dict_get d l = Inr ps" by (simp add: dict_get_def)
  from shuffle_returns[OF assms(1)] obtain paths where
    "shuffle rb (sr (str_int seed @ '':'' @ l)) (sort_key as_posix ps) = Inr paths" by blast
  with g assms(2,3) show ?thesis by (simp add: class_slices_def Let_def)
qed

lemma split_labels_returns:
  assumes "randbelow_ok rb" "dict_get ratios ''train'' = Inr rt" "dict_get ratios ''val'' = Inr rv"
  shows "set ls \<subseteq> set (dict_keys d) \<Longrightarrow> \<exists>s'. split_labels sr rb d seed ratios ls s = Inr s'"
proof (induction ls arbitrary: s)
  case Nil
  then show ?case by simp
next
  case (Cons l ls)
  then have "l \<in> set (dict_keys d)" by simp
  from class_slices_returns[OF assms this] obtain tr va te where
    "class_slices sr rb d seed ratios l = Inr (tr, va, te)" by (metis prod_cases3)
  moreover from Cons.prems have "set ls \<subseteq> set (dict_keys d)" by simp
  ultimately show ?case using Cons.IH by simp
qed

lemma stratified_split_returns:
  assumes "randbelow_ok rb" "dict_get ratios ''train'' = Inr rt" "dict_get ratios ''val'' = Inr rv"
  shows "\<exists>s. stratified_split sr rb d seed ratios = Inr s"
proof -
  have "set (sort (dict_keys d)) \<subseteq> set (dict_keys d)" by simp
  from split_labels_returns[OF assms this] obtain s' where
    "split_labels sr rb d seed ratios (sort (dict_keys d)) \<lparr>train = [], val = [], test = []\<rparr> = Inr s'"
    by blast
  then show ?thesis by (simp add: stratified_split_def)
qed

lemma toy_randbelow_ok: "randbelow_ok toy_randbelow"
  by (simp add: randbelow_ok_def toy_randbelow_def)

lemma all_items_mset:
  assumes "dict_get ratios ''train'' = Inr rt" "dict_get ratios ''val'' = Inr rv" "0 \<le> rt" "0 \<le> rv"
    and "stratified_split sr rb d seed ratios = Inr s"
  shows "mset (train s @ val s @ test s) = mset (all_items d)"
proof -
  from assms(5) obtain s' where
    sl: "split_labels sr rb d seed ratios (sort (dict_keys d)) \<lparr>train = [], val = [], test = []\<rparr> = Inr s'"
    and s: "s = \<lparr>train = sort_key (\<lambda>item. as_posix (fst item)) (train s'),
               val = sort_key (\<lambda>item. as_posix (fst item)) (val s'),
               test = sort_key (\<lambda>item. as_posix (fst item)) (test s')\<rparr>"
    by (auto simp: stratified_split_def split: sum.splits)
  from split_labels_mset[OF assms(1-4) sl]
  have "mset (train s' @ val s' @ test s') = mset (all_items d)"
    by (simp add: all_items_def)
  then show ?thesis by (simp add: s)
qed

lemma sort_key_as_posix_mset:
  "mset xs = mset ys \<Longrightarrow> sort_key as_posix xs = sort_key as_posix ys"
  by (rule sort_key_inj_key_eq) (simp_all add: inj_on_def as_posix_def)

lemma class_slices_perm:
  assumes "rel_option (\<lambda>xs ys. mset xs = mset ys) (map_of d1 l) (map_of d2 l)"
  shows "class_slices sr rb d1 seed ratios l = class_slices sr rb d2 seed ratios l"
proof (cases "map_of d1 l")
  case None
  with assms have "map_of d2 l = None" by (cases "map_of d2 l") simp_all
  with None show ?thesis by (simp add: class_slices_def dict_get_def)
next
  case (Some ps1)
  with assms obtain ps2 where 2: "map_of d2 l = Some ps2" and m: "mset ps1 = mset ps2"
    by (cases "map_of d2 l") simp_all
  from m have "sort_key as_posix ps1 = sort_key as_posix ps2" by (rule sort_key_as_posix_mset)
  with Some 2 show ?thesis by (simp add: class_slices_def dict_get_def)
qed

lemma split_labels_perm:
  assumes "\<forall>l. rel_option (\<lambda>xs ys. mset xs = mset ys) (map_of d1 l) (map_of d2 l)"
  shows "split_labels sr rb d1 seed ratios ls s = split_labels sr rb d2 seed ratios ls s"
proof (induction ls arbitrary: s)
  case Nil
  show ?case by simp
next
  case (Cons l ls)
  have "class_slices sr rb d1 seed ratios l = class_slices sr rb d2 seed ratios l"
    using assms by (intro class_slices_perm) simp
  with Cons.IH show ?case by (simp split: sum.splits)
qed

lemma dict_keys_perm:
  assumes "\<forall>l. rel_option (\<lambda>xs ys. mset xs = mset ys) (map_of d1 l) (map_of d2 l)"
  shows "sort (dict_keys d1) = sort (dict_keys d2)"
proof -
  have "dom (map_of d1) = dom (map_of d2)"
  proof (rule set_eqI)
    fix l
    from assms have "rel_option (\<lambda>xs ys. mset xs = mset ys) (map_of d1 l) (map_of d2 l)" by simp
    then show "l \<in> dom (map_of d1) \<longleftrightarrow> l \<in> dom (map_of d2)"
      by (cases "map_of d1 l"; cases "map_of d2 l") auto
  qed
  then have "set (map fst d1) = set (map fst d2)" by (simp add: dom_map_of_conv_image_fst)
  then have "sorted_list_of_set (set (map fst d1)) = sorted_list_of_set (set (map fst d2))" by simp
  then show ?thesis by (simp only: dict_keys_def sorted_list_of_set_sort_remdups)
qed

lemma stratified_split_perm:
  assumes "\<forall>l. rel_option (\<lambda>xs ys. mset xs = mset ys) (map_of d1 l) (map_of d2 l)"
  shows "stratified_split sr rb d1 seed ratios = stratified_split sr rb d2 seed ratios"
  unfolding stratified_split_def dict_keys_perm[OF assms] split_labels_perm[OF assms] ..

section \<open>Claims about the stratified split\<close>

text \<open>
  Claim C1 (determinism of the split). The split and the manifests are functions of the
  seed, the ratios and, for each class, the multiset of its paths: when two collections
  hold the same labels and, for every label, the same paths in any order (the order in
  which the file system or the archive enumerated them, or the order of the dictionary's
  keys), \<open>stratified_split\<close> returns the same splits, and the rest of
  \<open>write_split_manifests\<close> leaves the same file system and returns the same metadata,
  so that the manifest files are identical byte for byte. The reason is that each class
  is sorted by its POSIX path before the shuffle, and that the generator of the shuffle is
  seeded from the string \<open>seed:label\<close> alone.
\<close>

theorem split_independent_of_enumeration_order:
  assumes "\<forall>l. rel_option (\<lambda>xs ys. mset xs = mset ys) (map_of d1 l) (map_of d2 l)"
  shows "stratified_split seed_rng randbelow d1 seed ratios =
         stratified_split seed_rng randbelow d2 seed ratios \<and>
         write_outputs repo_root seed_rng randbelow json_dumps fs raw_dir_abs splits_dir_abs seed ratios
           (d1, dataset_root, source) =
         write_outputs repo_root seed_rng randbelow json_dumps fs raw_dir_abs splits_dir_abs seed ratios
           (d2, dataset_root, source)"
  using stratified_split_perm[OF assms, of seed_rng randbelow seed ratios]
  by (simp add: write_outputs_def)

theorem split_independent_of_enumeration_order_witness:
  "stratified_split toy_seed toy_randbelow
      [(''dog'', [''d/2.jpg'', ''d/1.jpg'']), (''cat'', [''c/3.jpg'', ''c/1.jpg'', ''c/2.jpg'', ''c/4.jpg''])]
      1337 half_quarter_ratios =
   stratified_split toy_seed toy_randbelow
      [(''cat'', [''c/1.jpg'', ''c/2.jpg'', ''c/3.jpg'', ''c/4.jpg'']), (''dog'', [''d/1.jpg'', ''d/2.jpg''])]
      1337 half_quarter_ratios"
proof -
  let ?d1 = "[(''dog'', [''d/2.jpg'', ''d/1.jpg'']), (''cat'', [''c/3.jpg'', ''c/1.jpg'', ''c/2.jpg'', ''c/4.jpg''])]"
  let ?d2 = "[(''cat'', [''c/1.jpg'', ''c/2.jpg'', ''c/3.jpg'', ''c/4.jpg'']), (''dog'', [''d/1.jpg'', ''d/2.jpg''])]"
  have "\<forall>l. rel_option (\<lambda>xs ys. mset xs = mset ys) (map_of ?d1 l) (map_of ?d2 l)"
    by (simp add: add_mset_commute)
  from split_independent_of_enumeration_order[OF this] show ?thesis by blast
qed




text \<open>
  Claim C9 (the splits partition the input), as amended. For ratios whose \<open>train\<close> and
  \<open>val\<close> entries are not negative, the split returns, and the items of train, val and
  test together are exactly the (path, label) pairs of the input, each as often as the
  input holds it; when the input pairs are distinct, so are the items of each split, and
  the three splits are pairwise disjoint.
\<close>

theorem stratified_split_partition:
  assumes "randbelow_ok randbelow"
    and "dict_get ratios ''train'' = Inr train_ratio"
    and "dict_get ratios ''val'' = Inr val_ratio"
    and "0 \<le> train_ratio" "0 \<le> val_ratio"
  shows "\<exists>s. stratified_split seed_rng randbelow paths_by_label seed ratios = Inr s \<and>
             mset (train s @ val s @ test s) = mset (all_items paths_by_label) \<and>
             (distinct (all_items paths_by_label) \<longrightarrow>
                distinct (train s) \<and> distinct (val s) \<and> distinct (test s) \<and>
                set (train s) \<inter> set (val s) = {} \<and>
                set (train s) \<inter> set (test s) = {} \<and>
                set (val s) \<inter> set (test s) = {})"
proof -
  from stratified_split_returns[OF assms(1-3)] obtain s where
    s: "stratified_split seed_rng randbelow paths_by_label seed ratios = Inr s" by blast
  have m: "mset (train s @ val s @ test s) = mset (all_items paths_by_label)"
    using all_items_mset[OF assms(2-5) s] .
  have "distinct (train s @ val s @ test s)" if "distinct (all_items paths_by_label)"
    using that mset_eq_imp_distinct_iff[OF m] by simp
  then have "distinct (all_items paths_by_label) \<longrightarrow>
       distinct (train s) \<and> distinct (val s) \<and> distinct (test s) \<and>
       set (train s) \<inter> set (val s) = {} \<and> set (train s) \<inter> set (test s) = {} \<and>
       set (val s) \<inter> set (test s) = {}"
    by auto
  with s m show ?thesis by blast
qed

theorem stratified_split_partition_witness:
  "\<exists>s. stratified_split toy_seed toy_randbelow
          [(''dog'', [''d/2.jpg'', ''d/1.jpg'']), (''cat'', [''c/3.jpg'', ''c/1.jpg'', ''c/2.jpg'', ''c/4.jpg''])]
          1337 half_quarter_ratios = Inr s \<and>
       mset (train s @ val s @ test s) =
         mset [(''c/1.jpg'', ''cat''), (''c/2.jpg'', ''cat''), (''c/3.jpg'', ''cat''), (''c/4.jpg'', ''cat''),
               (''d/1.jpg'', ''dog''), (''d/2.jpg'', ''dog'')] \<and>
       set (train s) \<inter> set (val s) = {} \<and> set (train s) \<inter> set (test s) = {} \<and>
       set (val s) \<inter> set (test s) = {}"
proof -
  let ?d = "[(''dog'', [''d/2.jpg'', ''d/1.jpg'']), (''cat'', [''c/3.jpg'', ''c/1.jpg'', ''c/2.jpg'', ''c/4.jpg''])]"
  have t: "dict_get half_quarter_ratios ''train'' = Inr (1 / 2)"
    by (simp add: dict_get_def half_quarter_ratios_def)
  have v: "dict_get half_quarter_ratios ''val'' = Inr (1 / 4)"
    by (simp add: dict_get_def half_quarter_ratios_def)
  have a: "all_items ?d = [(''c/3.jpg'', ''cat''), (''c/1.jpg'', ''cat''), (''c/2.jpg'', ''cat''), (''c/4.jpg'', ''cat''),
               (''d/2.jpg'', ''dog''), (''d/1.jpg'', ''dog'')]"
    by code_simp
  have d: "distinct (all_items ?d)" unfolding a by simp
  from stratified_split_partition[OF toy_randbelow_ok t v, of toy_seed ?d 1337] d
  show ?thesis unfolding a by (auto simp: add_mset_commute)
qed

text \<open>
  With a negative train ratio the slices overlap: of four files of one class, the file
  \<^verbatim>\<open>d.jpg\<close> is both a train item and a test item.
\<close>

theorem partition_broken_by_negative_ratio:
  "stratified_split toy_seed toy_randbelow
      [(''cat'', [''c.jpg'', ''a.jpg'', ''b.jpg'', ''d.jpg''])] 1337 negative_train_ratios
   = Inr \<lparr>train = [(''c.jpg'', ''cat''), (''d.jpg'', ''cat'')],
          val = [],
          test = [(''a.jpg'', ''cat''), (''b.jpg'', ''cat''), (''d.jpg'', ''cat'')]\<rparr>"
  by code_simp

section \<open>Label inference and collection\<close>

lemma scan_parts_None: "scan_parts ps = None \<longleftrightarrow> (\<forall>p \<in> set ps. \<not> matches_class p)"
  by (induction ps) (auto simp: matches_class_def Let_def)

lemma scan_parts_first:
  "\<forall>p \<in> set pre. \<not> matches_class p \<Longrightarrow> matches_class s \<Longrightarrow>
   scan_parts (pre @ s # post) = Some (class_of_segment s)"
  by (induction pre) (auto simp: matches_class_def class_of_segment_def Let_def)

lemma scan_parts_range: "scan_parts ps = Some l \<Longrightarrow> l = ''cat'' \<or> l = ''dog''"
  by (induction ps) (auto simp: Let_def split: if_splits)

lemma infer_label_None:
  "infer_label_from_parts parts = None \<longleftrightarrow> (\<forall>p \<in> set parts. \<not> matches_class p)"
  by (simp add: infer_label_from_parts_def scan_parts_None)

lemma infer_label_last_match:
  assumes "matches_class s" "\<forall>p \<in> set post. \<not> matches_class p"
  shows "infer_label_from_parts (pre @ s # post) = Some (class_of_segment s)"
proof -
  have "rev (pre @ s # post) = rev post @ s # rev pre" by simp
  moreover have "\<forall>p \<in> set (rev post). \<not> matches_class p" using assms(2) by simp
  ultimately show ?thesis
    unfolding infer_label_from_parts_def using assms(1) by (simp only: scan_parts_first)
qed

lemma map_of_dict_append:
  "map_of (dict_append d k x) l =
     (case map_of d l of None \<Rightarrow> None | Some xs \<Rightarrow> Some (if l = k then xs @ [x] else xs))"
  by (induction d) (auto simp: dict_append_def)

lemma lookup_paths_dict_append:
  "map_of d l \<noteq> None \<Longrightarrow>
   lookup_paths (dict_append d k x) l = lookup_paths d l @ (if l = k then [x] else [])"
  by (auto simp: lookup_paths_def map_of_dict_append split: option.splits)

lemma dict_append_keys: "map_of (dict_append d k x) l = None \<longleftrightarrow> map_of d l = None"
  by (simp add: map_of_dict_append split: option.splits)

lemma collect_dir_loop_lookup:
  "map_of d l \<noteq> None \<Longrightarrow>
   lookup_paths (collect_dir_loop fs ps d) l = lookup_paths d l @ filter (labelled_image fs l) ps"
proof (induction ps arbitrary: d)
  case Nil
  then show ?case by simp
next
  case (Cons p ps)
  show ?case
  proof (cases "is_file fs p \<and> is_image_name (path_name p)")
    case False
    with Cons show ?thesis by (auto simp: labelled_image_def)
  next
    case True
    show ?thesis
    proof (cases "infer_label_from_parts (path_parts p)")
      case None
      with True Cons show ?thesis by (simp add: labelled_image_def)
    next
      case (Some k)
      from Cons.prems have "map_of (dict_append d k p) l \<noteq> None" by (simp add: dict_append_keys)
      from Cons.IH[OF this] True Some Cons.prems show ?thesis
        by (auto simp: labelled_image_def lookup_paths_dict_append)
    qed
  qed
qed

lemma collect_dir_loop_keys:
  "map_of (collect_dir_loop fs ps d) l = None \<longleftrightarrow> map_of d l = None"
  by (induction ps arbitrary: d) (auto simp: dict_append_keys split: option.splits)

lemma collect_from_directory_lookup:
  assumes "collect_from_directory fs raw_dir = Inr (paths_by_label, dataset_root)"
  shows "lookup_paths paths_by_label l =
           (if l = ''cat'' \<or> l = ''dog''
            then filter (labelled_image fs l) (rglob fs dataset_root) else [])"
proof -
  from assms have pbl: "paths_by_label =
      collect_dir_loop fs (rglob fs dataset_root) [(''cat'', []), (''dog'', [])]"
    by (auto simp: collect_from_directory_def Let_def split: sum.splits if_splits)
  show ?thesis
  proof (cases "l = ''cat'' \<or> l = ''dog''")
    case True
    then have "map_of [(''cat'', []), (''dog'', [] :: path list)] l \<noteq> None" by auto
    from collect_dir_loop_lookup[OF this, of fs "rglob fs dataset_root"] True
    show ?thesis by (auto simp: pbl lookup_paths_def)
  next
    case False
    then have "map_of [(''cat'', []), (''dog'', [] :: path list)] l = None" by auto
    then have "map_of paths_by_label l = None" unfolding pbl by (simp only: collect_dir_loop_keys)
    with False show ?thesis by (simp add: lookup_paths_def)
  qed
qed

lemma set_py_slice: "set (py_slice xs a b) \<subseteq> set xs"
proof -
  have "set (take n (drop m xs)) \<subseteq> set xs" for n m
    by (meson set_take_subset set_drop_subset subset_trans)
  then show ?thesis by (simp add: py_slice_def Let_def)
qed

lemma class_slices_members:
  assumes "class_slices sr rb d seed ratios l = Inr (tr, va, te)"
  shows "set tr \<union> set va \<union> set te \<subseteq> (\<lambda>p. (p, l)) ` set (lookup_paths d l)"
proof -
  from assms obtain ps paths rt rv where f:
    "map_of d l = Some ps" "mset paths = mset ps"
    "dict_get ratios ''train'' = Inr rt" "dict_get ratios ''val'' = Inr rv"
    "tr = map (\<lambda>p. (p, l)) (py_slice paths None (Some (py_int (real (length ps) * rt))))"
    "va = map (\<lambda>p. (p, l)) (py_slice paths (Some (py_int (real (length ps) * rt)))
            (Some (py_int (real (length ps) * rt) + py_int (real (length ps) * rv))))"
    "te = map (\<lambda>p. (p, l)) (py_slice paths
            (Some (py_int (real (length ps) * rt) + py_int (real (length ps) * rv))) None)"
    by (rule class_slices_InrD)
  have "set paths = set ps" using f(2) by (rule mset_eq_setD)
  then have "set (py_slice paths a b) \<subseteq> set (lookup_paths d l)" for a b
    using set_py_slice[of paths a b] f(1) by (simp add: lookup_paths_def)
  then show ?thesis unfolding f(5,6,7) by auto
qed

lemma split_labels_members:
  "split_labels sr rb d seed ratios ls s = Inr s' \<Longrightarrow>
   set (train s') \<union> set (val s') \<union> set (test s') \<subseteq>
     set (train s) \<union> set (val s) \<union> set (test s) \<union> {(p, l). p \<in> set (lookup_paths d l)}"
proof (induction ls arbitrary: s)
  case Nil
  then show ?case by auto
next
  case (Cons l ls)
  from Cons.prems obtain tr va te where cs: "class_slices sr rb d seed ratios l = Inr (tr, va, te)"
    by (auto split: sum.splits)
  with Cons.prems have
    "split_labels sr rb d seed ratios ls \<lparr>train = train s @ tr, val = val s @ va, test = test s @ te\<rparr> = Inr s'"
    by simp
  from Cons.IH[OF this] class_slices_members[OF cs] show ?case by auto
qed

lemma stratified_split_members:
  assumes "stratified_split sr rb d seed ratios = Inr s"
    and "(p, l) \<in> set (train s) \<union> set (val s) \<union> set (test s)"
  shows "p \<in> set (lookup_paths d l)"
proof -
  from assms(1) obtain s' where
    sl: "split_labels sr rb d seed ratios (sort (dict_keys d)) \<lparr>train = [], val = [], test = []\<rparr> = Inr s'"
    and s: "s = \<lparr>train = sort_key (\<lambda>item. as_posix (fst item)) (train s'),
               val = sort_key (\<lambda>item. as_posix (fst item)) (val s'),
               test = sort_key (\<lambda>item. as_posix (fst item)) (test s')\<rparr>"
    by (auto simp: stratified_split_def split: sum.splits)
  from assms(2) have "(p, l) \<in> set (train s') \<union> set (val s') \<union> set (test s')" by (simp add: s)
  with split_labels_members[OF sl] show ?thesis by auto
qed


section \<open>Claims about label inference\<close>

text \<open>
  Claim C4 (label inference). The parts of a path are scanned from the last to the first,
  and the first part met whose lower-case form is cat or cats gives the label cat, dog or
  dogs the label dog: the last matching segment of the path wins, and a path with no
  matching segment has no label. \<open>collect_from_directory\<close> keeps, for each of the
  two labels, exactly the image files below the dataset root whose inferred label it is, so
  a file without a matching segment is in no list, raises nothing, and every item of every
  split carries the label inferred from its own path.
\<close>

theorem label_inference_rule:
  "(infer_label_from_parts parts = None \<longleftrightarrow> (\<forall>part \<in> set parts. \<not> matches_class part)) \<and>
   (matches_class seg \<and> (\<forall>part \<in> set after. \<not> matches_class part) \<longrightarrow>
      infer_label_from_parts (before @ seg # after) = Some (class_of_segment seg)) \<and>
   (collect_from_directory fs raw_dir = Inr (paths_by_label, dataset_root) \<longrightarrow>
      (\<forall>l. lookup_paths paths_by_label l =
         (if l = ''cat'' \<or> l = ''dog''
          then filter (\<lambda>p. is_file fs p \<and> is_image_name (path_name p) \<and>
                         infer_label_from_parts (path_parts p) = Some l)
                 (rglob fs dataset_root)
          else []))) \<and>
   (collect_from_directory fs raw_dir = Inr (paths_by_label, dataset_root) \<and>
    stratified_split seed_rng randbelow paths_by_label seed ratios = Inr s \<and>
    (p, l) \<in> set (train s) \<union> set (val s) \<union> set (test s) \<longrightarrow>
      infer_label_from_parts (path_parts p) = Some l)"
proof (intro conjI impI allI)
  show "infer_label_from_parts parts = None \<longleftrightarrow> (\<forall>part \<in> set parts. \<not> matches_class part)"
    by (rule infer_label_None)
next
  assume "matches_class seg \<and> (\<forall>part \<in> set after. \<not> matches_class part)"
  then show "infer_label_from_parts (before @ seg # after) = Some (class_of_segment seg)"
    by (simp add: infer_label_last_match)
next
  fix k
  assume "collect_from_directory fs raw_dir = Inr (paths_by_label, dataset_root)"
  from collect_from_directory_lookup[OF this, of k]
  show "lookup_paths paths_by_label k =
         (if k = ''cat'' \<or> k = ''dog''
          then filter (\<lambda>p. is_file fs p \<and> is_image_name (path_name p) \<and>
                         infer_label_from_parts (path_parts p) = Some k)
                 (rglob fs dataset_root)
          else [])"
    by (simp add: labelled_image_def[abs_def])
next
  assume a: "collect_from_directory fs raw_dir = Inr (paths_by_label, dataset_root) \<and>
    stratified_split seed_rng randbelow paths_by_label seed ratios = Inr s \<and>
    (p, l) \<in> set (train s) \<union> set (val s) \<union> set (test s)"
  then have "p \<in> set (lookup_paths paths_by_label l)"
    using stratified_split_members by blast
  with a collect_from_directory_lookup[of fs raw_dir paths_by_label dataset_root l]
  show "infer_label_from_parts (path_parts p) = Some l"
    by (auto simp: labelled_image_def split: if_splits)
qed

theorem label_inference_rule_witness:
  "infer_label_from_parts ([''/'', ''data'', ''Cats''] @ ''DOG'' # [''x.jpg'']) = Some ''dog'' \<and>
   infer_label_from_parts (path_parts ''/repo/data/raw/misc/e.png'') = None \<and>
   collect_from_directory demo_fs ''/repo/data/raw'' =
     Inr ([(''cat'', [''/repo/data/raw/cats/b.jpg'', ''/repo/data/raw/cats/a.jpg'']),
           (''dog'', [''/repo/data/raw/dogs/d.jpg'', ''/repo/data/raw/dogs/c.jpg''])],
          ''/repo/data/raw'')"
proof -
  have m: "matches_class ''DOG''" by code_simp
  have n: "\<forall>part \<in> set [''x.jpg'']. \<not> matches_class part" by code_simp
  have c: "class_of_segment ''DOG'' = ''dog''" by code_simp
  note r = label_inference_rule[where seg = "''DOG''" and after = "[''x.jpg'']"
      and before = "[''/'', ''data'', ''Cats'']", THEN conjunct2, THEN conjunct1]
  from r m n c
  have 1: "infer_label_from_parts ([''/'', ''data'', ''Cats''] @ ''DOG'' # [''x.jpg'']) = Some ''dog''"
    by simp
  have 2: "infer_label_from_parts (path_parts ''/repo/data/raw/misc/e.png'') = None"
    by code_simp
  have 3: "collect_from_directory demo_fs ''/repo/data/raw'' =
     Inr ([(''cat'', [''/repo/data/raw/cats/b.jpg'', ''/repo/data/raw/cats/a.jpg'']),
           (''dog'', [''/repo/data/raw/dogs/d.jpg'', ''/repo/data/raw/dogs/c.jpg''])],
          ''/repo/data/raw'')"
    by code_simp
  from 1 2 3 show ?thesis by (intro conjI)
qed

section \<open>The colour histogram\<close>





lemma length_np_histogram [simp]: "length (np_histogram a B) = B"
  by (simp add: np_histogram_def Let_def)

lemma length_normalize_hist [simp]: "length (normalize_hist h) = length h"
  by (simp add: normalize_hist_def Let_def)

lemma sum_real_list: "(\<Sum>c\<leftarrow>h. real c) = real (sum_list h)"
  by (induction h) simp_all












section \<open>Claims about the colour histogram\<close>





section \<open>Which errors each stage of the manifest generation raises\<close>

lemma relative_to_error: "relative_to p b = Inl e \<Longrightarrow> e = NotRelativeError"
  by (auto simp: relative_to_def split: if_splits)

lemma write_text_error: "write_text fs p c = Inl e \<Longrightarrow> e = IsADirectoryError"
  by (auto simp: write_text_def split: if_splits)

lemma mkdir_chain_error: "mkdir_chain fs ds = Inl e \<Longrightarrow> e = FileExistsError"
  by (induction ds arbitrary: fs) (auto split: option.splits node.splits)

lemma manifest_loop_error:
  "manifest_loop r items acc = Inl e \<Longrightarrow> e \<noteq> RatiosError \<and> e \<noteq> FileNotFoundError"
proof (induction r items acc rule: manifest_loop.induct)
  case (1 repo_root acc)
  then show ?case by simp
next
  case (2 repo_root p lbl rest lines class_counts)
  then show ?case
    by (auto split: sum.splits option.splits dest: relative_to_error)
qed

lemma write_splits_error:
  "fst (write_splits r d xs fs cbc cs) = Inl e \<Longrightarrow> e \<noteq> RatiosError \<and> e \<noteq> FileNotFoundError"
proof (induction xs arbitrary: fs cbc cs)
  case Nil
  then show ?case by simp
next
  case (Cons x xs)
  obtain split_name items where x: "x = (split_name, items)" by (cases x)
  show ?case
  proof (cases "manifest_loop r items ([], [(''cat'', 0), (''dog'', 0)])")
    case (Inl e')
    with Cons.prems x have "e = e'" by simp
    with manifest_loop_error[OF Inl] show ?thesis by simp
  next
    case (Inr res)
    obtain lines class_counts where res: "res = (lines, class_counts)" by (cases res)
    show ?thesis
    proof (cases "write_text fs (joinpath d (split_name @ ''.txt'')) (manifest_text lines)")
      case (Inl e')
      with Cons.prems x Inr res have "e = e'" by simp
      with write_text_error[OF Inl] show ?thesis by simp
    next
      case (Inr fs')
      with Cons.prems x \<open>manifest_loop r items ([], [(''cat'', 0), (''dog'', 0)]) = Inr res\<close> res
      have "fst (write_splits r d xs fs' (cbc @ [(split_name, class_counts)])
                   (cs @ [(split_name, length items)])) = Inl e"
        by simp
      then show ?thesis by (rule Cons.IH)
    qed
  qed
qed

lemma shuffle_steps_error: "shuffle_steps rb k g x = Inl e \<Longrightarrow> e = IndexError"
  by (induction k arbitrary: g x) (auto split: prod.splits if_splits)

lemma class_slices_error:
  "class_slices sr rb d seed ratios l = Inl e \<Longrightarrow> e \<noteq> RatiosError \<and> e \<noteq> FileNotFoundError"
  by (auto simp: class_slices_def dict_get_def shuffle_def Let_def
           split: sum.splits option.splits dest: shuffle_steps_error)

lemma split_labels_error:
  "split_labels sr rb d seed ratios ls s = Inl e \<Longrightarrow> e \<noteq> RatiosError \<and> e \<noteq> FileNotFoundError"
proof (induction ls arbitrary: s)
  case Nil
  then show ?case by simp
next
  case (Cons l ls)
  show ?case
  proof (cases "class_slices sr rb d seed ratios l")
    case (Inl e')
    with Cons.prems have "e = e'" by simp
    with class_slices_error[OF Inl] show ?thesis by simp
  next
    case (Inr r)
    obtain tr va te where "r = (tr, va, te)" by (cases r)
    with Inr Cons.prems have
      "split_labels sr rb d seed ratios ls
         \<lparr>train = train s @ tr, val = val s @ va, test = test s @ te\<rparr> = Inl e"
      by simp
    then show ?thesis by (rule Cons.IH)
  qed
qed

lemma stratified_split_error:
  "stratified_split sr rb d seed ratios = Inl e \<Longrightarrow> e \<noteq> RatiosError \<and> e \<noteq> FileNotFoundError"
  by (auto simp: stratified_split_def split: sum.splits dest: split_labels_error)

lemma write_outputs_error:
  assumes "fst (write_outputs r sr rb js fs raw sd seed ratios collected) = Inl e"
  shows "e \<noteq> RatiosError \<and> e \<noteq> FileNotFoundError"
proof -
  obtain pbl root src where c: "collected = (pbl, root, src)" by (cases collected)
  show ?thesis
  proof (cases "stratified_split sr rb pbl seed ratios")
    case (Inl e')
    with assms c have "e = e'" by (simp add: write_outputs_def)
    with stratified_split_error[OF Inl] show ?thesis by simp
  next
    case sp: (Inr splits)
    show ?thesis
    proof (cases "mkdir_parents fs sd")
      case (Inl e')
      with assms c sp have "e = e'" by (simp add: write_outputs_def)
      with mkdir_chain_error[of fs "path_chain sd" e'] Inl show ?thesis
        by (simp add: mkdir_parents_def)
    next
      case mk: (Inr fs1)
      let ?w = "write_splits r sd [(''train'', train splits), (''val'', val splits), (''test'', test splits)] fs1 [] []"
      obtain res fs2 where w: "?w = (res, fs2)" by (cases ?w)
      show ?thesis
      proof (cases res)
        case (Inl e')
        with assms c sp mk w have "e = e'" by (simp add: write_outputs_def)
        moreover from w Inl have "fst ?w = Inl e'" by simp
        ultimately show ?thesis using write_splits_error by blast
      next
        case (Inr cc)
        obtain cbc cs where cc: "cc = (cbc, cs)" by (cases cc)
        from assms c sp mk w Inr cc show ?thesis
          by (auto simp: write_outputs_def Let_def split: sum.splits
                   dest: relative_to_error write_text_error)
      qed
    qed
  qed
qed

lemma write_outputs_early_error:
  assumes "write_outputs r sr rb js fs raw sd seed ratios collected = (Inl e, fs')"
    and "e = RatiosError \<or> e = FileNotFoundError"
  shows "fs' = fs"
  using write_outputs_error[of r sr rb js fs raw sd seed ratios collected e] assms by auto




section \<open>Claims about the manifest generation\<close>




text \<open>
  Claim C10 (errors before any output). The ratios error, and the
  \<^verbatim>\<open>FileNotFoundError\<close> of a missing raw directory, of a dataset root that is not found and
  of a collection without images, are raised before the splits directory is created:
  whenever \<open>write_split_manifests\<close> ends in one of these two errors, the file system
  is the one the call started from. The first four parts say when these errors arise, the
  last one covers every call that ends in them.
\<close>

theorem early_errors_leave_file_system_unchanged:
  "(ratios_rejected (effective_ratios ratios_arg) \<longrightarrow>
      write_split_manifests repo_root seed_rng randbelow json_dumps fs raw_dir splits_dir seed
        ratios_arg zip_path = (Inl RatiosError, fs)) \<and>
   (\<not> ratios_rejected (effective_ratios ratios_arg) \<and>
    collect_from_directory fs (resolve_path raw_dir repo_root) = Inl FileNotFoundError \<and>
    zip_path = None \<longrightarrow>
      write_split_manifests repo_root seed_rng randbelow json_dumps fs raw_dir splits_dir seed
        ratios_arg zip_path = (Inl FileNotFoundError, fs)) \<and>
   (\<not> fs_exists fs raw_dir_abs \<longrightarrow> collect_from_directory fs raw_dir_abs = Inl FileNotFoundError) \<and>
   (find_dataset_root fs raw_dir_abs = Inr dataset_root \<and>
    \<not> any_values (collect_dir_loop fs (rglob fs dataset_root) [(''cat'', []), (''dog'', [])]) \<longrightarrow>
      collect_from_directory fs raw_dir_abs = Inl FileNotFoundError) \<and>
   (fst (write_split_manifests repo_root seed_rng randbelow json_dumps fs raw_dir splits_dir seed
           ratios_arg zip_path) = Inl RatiosError \<or>
    fst (write_split_manifests repo_root seed_rng randbelow json_dumps fs raw_dir splits_dir seed
           ratios_arg zip_path) = Inl FileNotFoundError \<longrightarrow>
      snd (write_split_manifests repo_root seed_rng randbelow json_dumps fs raw_dir splits_dir seed
             ratios_arg zip_path) = fs)"
proof (intro conjI impI)
  assume "ratios_rejected (effective_ratios ratios_arg)"
  then show "write_split_manifests repo_root seed_rng randbelow json_dumps fs raw_dir splits_dir seed
        ratios_arg zip_path = (Inl RatiosError, fs)"
    by (simp add: write_split_manifests_def)
next
  assume "\<not> ratios_rejected (effective_ratios ratios_arg) \<and>
    collect_from_directory fs (resolve_path raw_dir repo_root) = Inl FileNotFoundError \<and>
    zip_path = None"
  then show "write_split_manifests repo_root seed_rng randbelow json_dumps fs raw_dir splits_dir seed
        ratios_arg zip_path = (Inl FileNotFoundError, fs)"
    by (simp add: write_split_manifests_def collect_source_def Let_def)
next
  assume "\<not> fs_exists fs raw_dir_abs"
  then show "collect_from_directory fs raw_dir_abs = Inl FileNotFoundError"
    by (simp add: collect_from_directory_def find_dataset_root_def)
next
  assume "find_dataset_root fs raw_dir_abs = Inr dataset_root \<and>
    \<not> any_values (collect_dir_loop fs (rglob fs dataset_root) [(''cat'', []), (''dog'', [])])"
  then show "collect_from_directory fs raw_dir_abs = Inl FileNotFoundError"
    by (simp add: collect_from_directory_def Let_def)
next
  let ?R = "write_split_manifests repo_root seed_rng randbelow json_dumps fs raw_dir splits_dir seed
           ratios_arg zip_path"
  assume e: "fst ?R = Inl RatiosError \<or> fst ?R = Inl FileNotFoundError"
  show "snd ?R = fs"
  proof (cases "ratios_rejected (effective_ratios ratios_arg)")
    case True
    then show ?thesis by (simp add: write_split_manifests_def)
  next
    case nr: False
    show ?thesis
    proof (cases "collect_source repo_root fs (resolve_path raw_dir repo_root) zip_path")
      case (Inl e')
      with nr show ?thesis by (simp add: write_split_manifests_def Let_def)
    next
      case (Inr collected)
      with nr have R: "?R = write_outputs repo_root seed_rng randbelow json_dumps fs
          (resolve_path raw_dir repo_root) (resolve_path splits_dir repo_root) seed
          (effective_ratios ratios_arg) collected"
        by (simp add: write_split_manifests_def Let_def)
      from e write_outputs_error[of repo_root seed_rng randbelow json_dumps fs
          "resolve_path raw_dir repo_root" "resolve_path splits_dir repo_root" seed
          "effective_ratios ratios_arg" collected]
      show ?thesis unfolding R by blast
    qed
  qed
qed

theorem early_errors_leave_file_system_unchanged_witness:
  "fst (write_split_manifests ''/repo'' toy_seed toy_randbelow toy_json_dumps demo_fs
          ''data/missing'' ''data/splits'' 1337 None None) = Inl FileNotFoundError \<and>
   snd (write_split_manifests ''/repo'' toy_seed toy_randbelow toy_json_dumps demo_fs
          ''data/missing'' ''data/splits'' 1337 None None) = demo_fs"
proof -
  let ?R = "write_split_manifests ''/repo'' toy_seed toy_randbelow toy_json_dumps demo_fs
          ''data/missing'' ''data/splits'' 1337 None None"
  have f: "fst ?R = Inl FileNotFoundError" by code_simp
  note r = early_errors_leave_file_system_unchanged[where repo_root = "''/repo''"
      and seed_rng = toy_seed and randbelow = toy_randbelow and json_dumps = toy_json_dumps
      and fs = demo_fs and raw_dir = "''data/missing''" and splits_dir = "''data/splits''"
      and seed = 1337 and ratios_arg = None and zip_path = None,
      THEN conjunct2, THEN conjunct2, THEN conjunct2, THEN conjunct2]
  from r f have "snd ?R = demo_fs" by blast
  with f show ?thesis by (intro conjI)
qed

section \<open>Feature matrices: the skip counter\<close>













section \<open>Claims about the feature matrices\<close>




section \<open>Prediction: the argmax and the labels\<close>

lemma argmax_scan_correct:
  assumes "best < length pre" "m = pre ! best"
    and "\<forall>j < length pre. pre ! j \<le> m" "\<forall>j < best. pre ! j < m"
  shows "is_argmax (pre @ xs) (argmax_scan xs (length pre) best m)"
  using assms
proof (induction xs arbitrary: pre best m)
  case Nil
  then show ?case by (simp add: is_argmax_def)
next
  case (Cons x xs)
  let ?pre = "pre @ [x]"
  show ?case
  proof (cases "m < x")
    case True
    have 1: "length pre < length ?pre" by simp
    have 2: "x = ?pre ! length pre" by simp
    have 3: "\<forall>j < length ?pre. ?pre ! j \<le> x"
    proof (intro allI impI)
      fix j assume "j < length ?pre"
      then consider "j < length pre" | "j = length pre" by fastforce
      then show "?pre ! j \<le> x"
      proof cases
        case 1
        with Cons.prems(3) True show ?thesis by (simp add: nth_append) (meson le_less_trans less_imp_le)
      next
        case 2
        then show ?thesis by simp
      qed
    qed
    have 4: "\<forall>j < length pre. ?pre ! j < x"
      using Cons.prems(3) True by (simp add: nth_append) (meson le_less_trans)
    from Cons.IH[OF 1 2 3 4] True show ?thesis by simp
  next
    case False
    have 1: "best < length ?pre" using Cons.prems(1) by simp
    have 2: "m = ?pre ! best" using Cons.prems(1,2) by (simp add: nth_append)
    have 3: "\<forall>j < length ?pre. ?pre ! j \<le> m"
    proof (intro allI impI)
      fix j assume "j < length ?pre"
      then consider "j < length pre" | "j = length pre" by fastforce
      then show "?pre ! j \<le> m"
      proof cases
        case 1
        with Cons.prems(3) show ?thesis by (simp add: nth_append)
      next
        case 2
        with False show ?thesis by simp
      qed
    qed
    have 4: "\<forall>j < best. ?pre ! j < m"
      using Cons.prems(1,4) by (simp add: nth_append)
    from Cons.IH[OF 1 2 3 4] False show ?thesis by simp
  qed
qed

lemma np_argmax_correct: "np_argmax xs = Inr i \<Longrightarrow> is_argmax xs i"
proof (cases xs)
  case Nil
  assume "np_argmax xs = Inr i"
  with Nil show ?thesis by (simp add: np_argmax_def)
next
  case (Cons x rest)
  assume "np_argmax xs = Inr i"
  with Cons have i: "i = argmax_scan rest 1 0 x" by (simp add: np_argmax_def)
  have "is_argmax ([x] @ rest) (argmax_scan rest (length [x]) 0 x)"
    by (rule argmax_scan_correct) simp_all
  with i Cons show ?thesis by simp
qed

lemma np_argmax_returns: "xs \<noteq> [] \<Longrightarrow> \<exists>i. np_argmax xs = Inr i"
  by (cases xs) (simp_all add: np_argmax_def)

lemma length_resolve_class_labels [simp]:
  "length (resolve_class_labels bundle c n) = n"
  by (simp add: resolve_class_labels_def Let_def)

lemma predict_image_result:
  assumes "preprocess_for_inference lib img (preprocess_config bundle) = Inr array"
    and "featurize_image array (feature_config bundle) = Inr features"
    and "predict_proba (classifier bundle) features = Inr (row # rest_rows)"
    and "np_argmax row = Inr i"
  shows "predict_image lib bundle img =
       Inr \<lparr>label = resolve_class_labels bundle (classifier bundle) (length row) ! i,
            probability = row ! i,
            probabilities = fold (\<lambda>(l, score). dict_store l score)
               (zip (resolve_class_labels bundle (classifier bundle) (length row)) row) []\<rparr>"
  using assms by (simp add: predict_image_def Let_def)

lemma dummy_proba: "predict_proba (classifier dummy_bundle) features = Inr [[2 / 10, 8 / 10]]"
  by (simp add: predict_proba_def dummy_bundle_def dummy_classifier_def)

lemma dummy_labels:
  "resolve_class_labels dummy_bundle (classifier dummy_bundle) (length [2 / 10, 8 / 10 :: real])
     = [''cat'', ''dog'']"
  by (simp add: resolve_class_labels_def dummy_bundle_def dummy_classifier_def)

lemma dummy_argmax: "np_argmax [2 / 10, 8 / 10] = Inr 1"
  by (simp add: np_argmax_def)

section \<open>Claims about prediction\<close>

text \<open>
  Claim C7 (stable argmax). When preprocessing and featurizing succeed and the classifier
  gives a row of probabilities that is not empty, \<open>predict_image\<close> returns a result
  whose label is the resolved label at the argmax index of the row and whose probability
  is the entry of the row at that index, where the argmax index is the lowest index of a
  largest entry. For the classifier of the unit test, with probabilities 0.2 and 0.8 for
  the classes 0 and 1 mapped to cat and dog, every image that preprocesses and featurizes
  is predicted as dog with probability 0.8.
\<close>

theorem predict_image_argmax:
  "(preprocess_for_inference lib img (preprocess_config bundle) = Inr array \<and>
    featurize_image array (feature_config bundle) = Inr features \<and>
    predict_proba (classifier bundle) features = Inr (row # rest_rows) \<and> row \<noteq> [] \<longrightarrow>
      (\<exists>r i. predict_image lib bundle img = Inr r \<and> is_argmax row i \<and>
         label r = resolve_class_labels bundle (classifier bundle) (length row) ! i \<and>
         probability r = row ! i)) \<and>
   (preprocess_for_inference lib img (preprocess_config dummy_bundle) = Inr array \<and>
    featurize_image array (feature_config dummy_bundle) = Inr features \<longrightarrow>
      (\<exists>r. predict_image lib dummy_bundle img = Inr r \<and> label r = ''dog'' \<and>
           \<bar>probability r - 8 / 10\<bar> < 1 / 10 ^ 6))"
proof -
  have c1: "preprocess_for_inference lib img (preprocess_config bundle) = Inr array \<and>
    featurize_image array (feature_config bundle) = Inr features \<and>
    predict_proba (classifier bundle) features = Inr (row # rest_rows) \<and> row \<noteq> [] \<longrightarrow>
      (\<exists>r i. predict_image lib bundle img = Inr r \<and> is_argmax row i \<and>
         label r = resolve_class_labels bundle (classifier bundle) (length row) ! i \<and>
         probability r = row ! i)"
  proof
    assume a: "preprocess_for_inference lib img (preprocess_config bundle) = Inr array \<and>
      featurize_image array (feature_config bundle) = Inr features \<and>
      predict_proba (classifier bundle) features = Inr (row # rest_rows) \<and> row \<noteq> []"
    then have a1: "preprocess_for_inference lib img (preprocess_config bundle) = Inr array"
      and a2: "featurize_image array (feature_config bundle) = Inr features"
      and a3: "predict_proba (classifier bundle) features = Inr (row # rest_rows)"
      and a4: "row \<noteq> []"
      by blast+
    from np_argmax_returns[OF a4] obtain i where i: "np_argmax row = Inr i" by blast
    let ?r = "\<lparr>label = resolve_class_labels bundle (classifier bundle) (length row) ! i,
            probability = row ! i,
            probabilities = fold (\<lambda>(l, score). dict_store l score)
               (zip (resolve_class_labels bundle (classifier bundle) (length row)) row) []\<rparr>"
    have "predict_image lib bundle img = Inr ?r"
      by (rule predict_image_result[OF a1 a2 a3 i])
    moreover have "is_argmax row i" by (rule np_argmax_correct[OF i])
    moreover have "label ?r = resolve_class_labels bundle (classifier bundle) (length row) ! i"
      by simp
    moreover have "probability ?r = row ! i" by simp
    ultimately show "\<exists>r i. predict_image lib bundle img = Inr r \<and> is_argmax row i \<and>
         label r = resolve_class_labels bundle (classifier bundle) (length row) ! i \<and>
         probability r = row ! i"
      by blast
  qed
  have c2: "preprocess_for_inference lib img (preprocess_config dummy_bundle) = Inr array \<and>
    featurize_image array (feature_config dummy_bundle) = Inr features \<longrightarrow>
      (\<exists>r. predict_image lib dummy_bundle img = Inr r \<and> label r = ''dog'' \<and>
           \<bar>probability r - 8 / 10\<bar> < 1 / 10 ^ 6)"
  proof
    assume a: "preprocess_for_inference lib img (preprocess_config dummy_bundle) = Inr array \<and>
      featurize_image array (feature_config dummy_bundle) = Inr features"
    note p = predict_image_result[OF conjunct1[OF a] conjunct2[OF a] dummy_proba dummy_argmax]
    have l: "resolve_class_labels dummy_bundle (classifier dummy_bundle)
        (length [2 / 10, 8 / 10 :: real]) ! 1 = ''dog''"
      unfolding dummy_labels by simp
    have q: "[2 / 10, 8 / 10 :: real] ! 1 = 8 / 10" by simp
    show "\<exists>r. predict_image lib dummy_bundle img = Inr r \<and> label r = ''dog'' \<and>
           \<bar>probability r - 8 / 10\<bar> < 1 / 10 ^ 6"
      unfolding p l q by simp
  qed
  from c1 c2 show ?thesis by (rule conjI)
qed

theorem predict_image_argmax_witness:
  "\<exists>r. predict_image toy_imaging dummy_bundle (pixel_image 51) = Inr r \<and> label r = ''dog'' \<and>
       \<bar>probability r - 8 / 10\<bar> < 1 / 10 ^ 6"
proof -
  have a: "preprocess_for_inference toy_imaging (pixel_image 51) (preprocess_config dummy_bundle)
      = Inr (pixel_image (1 / 5))"
    by (simp add: preprocess_for_inference_def preprocess_image_def toy_imaging_def
          dummy_bundle_def pixel_image_def)
  have b: "featurize_image (pixel_image (1 / 5)) (feature_config dummy_bundle)
      = Inr [0, 1, 0, 0, 0, 0, 0, 0, 0, 1, 0, 0, 0, 0, 0, 0, 0, 1, 0, 0, 0, 0, 0, 0]"
    by (simp add: featurize_image_def extract_color_histogram_def pixel_image_def dummy_bundle_def
          np_histogram_def normalize_hist_def bin_index_def upt_conv_Cons)
  note r = predict_image_argmax[where lib = toy_imaging and img = "pixel_image 51"
      and array = "pixel_image (1 / 5)", THEN conjunct2, rule_format, OF conjI[OF a b]]
  then show ?thesis .
qed

text \<open>
  Claim C8 (rejected payloads). For every model bundle, \<open>predict_bytes\<close> on the empty
  payload fails with the empty-payload error, and on a payload that is not empty and that
  PIL cannot identify as an image it fails with the decode error; in both cases no
  prediction result is returned.
\<close>

theorem predict_bytes_rejects:
  "predict_bytes lib bundle [] = Inl EmptyPayload \<and>
   (payload \<noteq> [] \<and> open_bytes lib payload = Inl DecodeError \<longrightarrow>
      predict_bytes lib bundle payload = Inl DecodeError) \<and>
   (payload = [] \<or> open_bytes lib payload = Inl DecodeError \<longrightarrow>
      (\<forall>r. predict_bytes lib bundle payload \<noteq> Inr r))"
  by (auto simp: predict_bytes_def)

theorem predict_bytes_rejects_witness:
  "predict_bytes toy_imaging dummy_bundle [] = Inl EmptyPayload \<and>
   predict_bytes toy_imaging dummy_bundle ''xyz'' = Inl DecodeError"
proof -
  have o: "open_bytes toy_imaging ''xyz'' = Inl DecodeError" by (simp add: toy_imaging_def)
  have n: "''xyz'' \<noteq> []" by simp
  note r = predict_bytes_rejects[of toy_imaging dummy_bundle "''xyz''"]
  from r[THEN conjunct1] r[THEN conjunct2, THEN conjunct1, rule_format, OF conjI[OF n o]]
  show ?thesis by (rule conjI)
qed

end
